theory Spec2Isabelle
  imports Main "HOL-Library.AList" "HOL-Library.Multiset" "HOL-Library.Sublist"
begin

section \<open>The calendar journal of src/App.tsx\<close>

text \<open>
  src/App.tsx holds three variants of the same component, one after the other:
  the local-only variant (lines 1-145), the Firestore variant with local calendar dates,
  remote delete and the upload sweep (lines 146-575), and the first Firestore variant
  (lines 576-906). Where two variants declare the same name with different bodies, the
  definitions below carry a suffix: \<open>_iso\<close> for the variants that format through
  \<open>toISOString\<close>, \<open>_local\<close> for the one that reads local calendar components; the comment
  of every definition gives the lines it embeds.

  JavaScript numbers that hold millisecond timestamps and calendar components are HOL
  integers; strings are HOL strings; a plain object used as a dictionary is an association
  list in insertion order (\<open>Object.keys\<close> order for keys that are not array indices), read
  with \<open>map_of\<close>, written with \<open>AList.update\<close> (an existing key keeps its place, a new key goes
  last) and \<open>AList.delete\<close>. \<open>Array.prototype.sort\<close> is stable, as is \<open>sort_key\<close>.
\<close>

subsection \<open>Items and the per-day mapping\<close>

text \<open>The item of the local-only variant (line 38): \<open>{ id, title, link }\<close>.\<close>

record baseItem =
  item_id :: string
  title :: string
  link :: string

text \<open>The item of the Firestore variants (lines 248, 662): adds \<open>createdAtMs\<close> and \<open>pending\<close>.\<close>

record item = baseItem +
  createdAtMs :: int
  pending :: bool

text \<open>A record read from the server (lines 284, 699): \<open>{ id, title, link, createdAtMs }\<close>.\<close>

record serverRec =
  srv_id :: string
  srv_title :: string
  srv_link :: string
  srv_createdAtMs :: int

type_synonym itemsMap = "(string \<times> item list) list"

text \<open>\<open>m[k] || []\<close>: an array is truthy, so only a missing key gives the empty array.\<close>

definition orEmpty :: "(string \<times> 'a list) list \<Rightarrow> string \<Rightarrow> 'a list" where
  "orEmpty m k = (case map_of m k of None \<Rightarrow> [] | Some arr \<Rightarrow> arr)"

text \<open>\<open>id && String(id).startsWith("local-")\<close> (lines 301, 333, 417, 470).\<close>

definition isLocalId :: "string \<Rightarrow> bool" where
  "isLocalId i = (i \<noteq> [] \<and> prefix ''local-'' i)"

text \<open>\<open>x || 0\<close> on a number.\<close>

definition orZero :: "int \<Rightarrow> int" where
  "orZero x = (if x = 0 then 0 else x)"

subsection \<open>Numbers as strings\<close>

definition digitChar :: "nat \<Rightarrow> char" where
  "digitChar d =
     (if d = 0 then CHR ''0'' else if d = 1 then CHR ''1'' else if d = 2 then CHR ''2''
      else if d = 3 then CHR ''3'' else if d = 4 then CHR ''4'' else if d = 5 then CHR ''5''
      else if d = 6 then CHR ''6'' else if d = 7 then CHR ''7'' else if d = 8 then CHR ''8''
      else CHR ''9'')"

fun natString :: "nat \<Rightarrow> string" where
  "natString n = (if n < 10 then [digitChar n] else natString (n div 10) @ [digitChar (n mod 10)])"

declare natString.simps [simp del]

text \<open>\<open>String(n)\<close> and \<open>`${n}`\<close> for an integer \<open>n\<close>.\<close>

definition String_of :: "int \<Rightarrow> string" where
  "String_of n = (if n < 0 then CHR ''-'' # natString (nat (- n)) else natString (nat n))"

text \<open>\<open>s.padStart(w, "0")\<close>.\<close>

definition padStart0 :: "nat \<Rightarrow> string \<Rightarrow> string" where
  "padStart0 w s = replicate (w - length s) (CHR ''0'') @ s"

text \<open>\<open>pad\<close> (lines 166-168).\<close>

definition pad :: "int \<Rightarrow> string" where
  "pad n = padStart0 2 (String_of n)"

subsection \<open>Dates\<close>

text \<open>
  A \<open>Date\<close> is its time value, the milliseconds since the epoch in UTC. The calendar
  arithmetic of the \<open>Date\<close> built-ins is modelled after ECMAScript, on day numbers:
  \<open>Day\<close>, \<open>DayFromYear\<close>, \<open>YearFromTime\<close>, \<open>MonthFromTime\<close>, \<open>DateFromTime\<close>, \<open>MakeDay\<close>,
  \<open>LocalTime\<close> and \<open>UTC\<close> (the proleptic Gregorian calendar). The time zone
  of the browser is a parameter: the offset in force at a UTC instant, and the offset
  chosen for a local time value.
\<close>

definition MS_PER_DAY :: int where
  "MS_PER_DAY = 24 * 60 * 60 * 1000"

definition VISIBLE_DAYS :: nat where
  "VISIBLE_DAYS = 7"

record timezone =
  tzaAtUTC :: "int \<Rightarrow> int"
  tzaAtLocal :: "int \<Rightarrow> int"

text \<open>A zone with a constant offset from UTC in milliseconds (no daylight saving).\<close>

definition fixedZone :: "int \<Rightarrow> timezone" where
  "fixedZone off = \<lparr>tzaAtUTC = (\<lambda>t. off), tzaAtLocal = (\<lambda>t. off)\<rparr>"

definition Day :: "int \<Rightarrow> int" where
  "Day t = t div MS_PER_DAY"

definition TimeWithinDay :: "int \<Rightarrow> int" where
  "TimeWithinDay t = t mod MS_PER_DAY"

text \<open>
  \<open>DayFromYear\<close>: the day number of the first of January of a year, and \<open>InLeapYear\<close>
  (1 in a leap year, 0 otherwise), as ECMAScript defines them.
\<close>

definition DayFromYear :: "int \<Rightarrow> int" where
  "DayFromYear y =
     365 * (y - 1970) + (y - 1969) div 4 - (y - 1901) div 100 + (y - 1601) div 400"

definition InLeapYear :: "int \<Rightarrow> int" where
  "InLeapYear y =
     (if y mod 4 \<noteq> 0 then 0 else if y mod 100 \<noteq> 0 then 1 else if y mod 400 \<noteq> 0 then 0 else 1)"

text \<open>
  \<open>YearFromTime\<close> on day numbers: the days since the first of January of year 1 are cut
  into cycles of 400 years, centuries (at most 3 whole ones in a cycle), groups of four
  years and years (at most 3 whole ones in a group).
\<close>

definition yearFromGroup :: "int \<Rightarrow> int \<Rightarrow> int" where
  "yearFromGroup base r = base + 4 * (r div 1461) + min 3 (r mod 1461 div 365) + 1"

definition yearFromCentury :: "int \<Rightarrow> int \<Rightarrow> int \<Rightarrow> int" where
  "yearFromCentury base n100 r = yearFromGroup (base + 100 * n100) (r - n100 * 36524)"

definition yearFromCycle :: "int \<Rightarrow> int \<Rightarrow> int" where
  "yearFromCycle n400 r = yearFromCentury (400 * n400) (min 3 (r div 36524)) r"

definition YearFromDay :: "int \<Rightarrow> int" where
  "YearFromDay z = yearFromCycle ((z + 719162) div 146097) ((z + 719162) mod 146097)"

definition DayWithinYear :: "int \<Rightarrow> int" where
  "DayWithinYear z = z - DayFromYear (YearFromDay z)"

text \<open>
  The first day of a month (0..11) within its year, and the month of a day within the year
  (\<open>MonthFromTime\<close>); \<open>leap\<close> is \<open>InLeapYear\<close>.
\<close>

definition monthStart :: "int \<Rightarrow> int \<Rightarrow> int" where
  "monthStart m leap =
     (if m = 0 then 0 else if m = 1 then 31 else if m = 2 then 59 + leap
      else if m = 3 then 90 + leap else if m = 4 then 120 + leap else if m = 5 then 151 + leap
      else if m = 6 then 181 + leap else if m = 7 then 212 + leap else if m = 8 then 243 + leap
      else if m = 9 then 273 + leap else if m = 10 then 304 + leap else 334 + leap)"

definition monthOfDayWithinYear :: "int \<Rightarrow> int \<Rightarrow> int" where
  "monthOfDayWithinYear d leap =
     (if d < 31 then 0 else if d < 59 + leap then 1 else if d < 90 + leap then 2
      else if d < 120 + leap then 3 else if d < 151 + leap then 4 else if d < 181 + leap then 5
      else if d < 212 + leap then 6 else if d < 243 + leap then 7 else if d < 273 + leap then 8
      else if d < 304 + leap then 9 else if d < 334 + leap then 10 else 11)"

definition MonthFromDay :: "int \<Rightarrow> int" where
  "MonthFromDay z = monthOfDayWithinYear (DayWithinYear z) (InLeapYear (YearFromDay z))"

definition DateFromDay :: "int \<Rightarrow> int" where
  "DateFromDay z =
     DayWithinYear z - monthStart (MonthFromDay z) (InLeapYear (YearFromDay z)) + 1"

definition LocalTime :: "timezone \<Rightarrow> int \<Rightarrow> int" where
  "LocalTime tz t = t + tzaAtUTC tz t"

definition UTC :: "timezone \<Rightarrow> int \<Rightarrow> int" where
  "UTC tz t = t - tzaAtLocal tz t"

definition getFullYear :: "timezone \<Rightarrow> int \<Rightarrow> int" where
  "getFullYear tz t = YearFromDay (Day (LocalTime tz t))"

definition getMonth :: "timezone \<Rightarrow> int \<Rightarrow> int" where
  "getMonth tz t = MonthFromDay (Day (LocalTime tz t))"

definition getDate :: "timezone \<Rightarrow> int \<Rightarrow> int" where
  "getDate tz t = DateFromDay (Day (LocalTime tz t))"

text \<open>
  \<open>MakeDay(year, month, date)\<close>: the month is zero-based and may lie outside 0..11, the
  date may lie outside the month.
\<close>

definition dayOfMonthStart :: "int \<Rightarrow> int \<Rightarrow> int" where
  "dayOfMonthStart ym mn = DayFromYear ym + monthStart mn (InLeapYear ym)"

definition MakeDay :: "int \<Rightarrow> int \<Rightarrow> int \<Rightarrow> int" where
  "MakeDay y m dt = dayOfMonthStart (y + m div 12) (m mod 12) + dt - 1"

text \<open>
  \<open>new Date(year, month, date)\<close>: local midnight of that calendar date. A year from 0 to
  99 means 1900 + year.
\<close>

definition newDate :: "timezone \<Rightarrow> int \<Rightarrow> int \<Rightarrow> int \<Rightarrow> int" where
  "newDate tz y m dt =
     UTC tz (MakeDay (if 0 \<le> y \<and> y \<le> 99 then 1900 + y else y) m dt * MS_PER_DAY)"

text \<open>
  \<open>d.toISOString()\<close>: \<open>YYYY-MM-DDTHH:mm:ss.sssZ\<close> in UTC; a year outside 0..9999 is
  written with a sign and six digits.
\<close>

definition isoYear :: "int \<Rightarrow> string" where
  "isoYear y =
     (if 0 \<le> y \<and> y \<le> 9999 then padStart0 4 (natString (nat y))
      else (if y < 0 then CHR ''-'' else CHR ''+'') # padStart0 6 (natString (nat \<bar>y\<bar>)))"

definition isoDateTime :: "int \<Rightarrow> int \<Rightarrow> int \<Rightarrow> int \<Rightarrow> string" where
  "isoDateTime y m d ms =
     isoYear y @ ''-'' @ pad m @ ''-'' @ pad d @ ''T''
       @ pad (ms div 3600000) @ '':'' @ pad (ms div 60000 mod 60) @ '':''
       @ pad (ms div 1000 mod 60) @ ''.'' @ padStart0 3 (natString (nat (ms mod 1000))) @ ''Z''"

definition toISOString :: "int \<Rightarrow> string" where
  "toISOString t =
     isoDateTime (YearFromDay (Day t)) (MonthFromDay (Day t) + 1) (DateFromDay (Day t))
       (TimeWithinDay t)"

text \<open>\<open>formatDateKey\<close> of lines 11-13 and 592-594: \<open>d.toISOString().slice(0, 10)\<close>.\<close>

definition formatDateKey_iso :: "int \<Rightarrow> string" where
  "formatDateKey_iso d = take 10 (toISOString d)"

text \<open>\<open>makeDateBefore\<close> (lines 19-21 and 600-602).\<close>

definition makeDateBefore :: "int \<Rightarrow> int \<Rightarrow> int" where
  "makeDateBefore base daysBefore = base - daysBefore * MS_PER_DAY"

text \<open>
  The \<open>visibleDates\<close> initializer of lines 28-35 and 652-659, with \<open>today = new Date()\<close>;
  the loop bound is the first argument.
\<close>

definition visibleDatesN_iso :: "nat \<Rightarrow> int \<Rightarrow> string list" where
  "visibleDatesN_iso n today = map (\<lambda>i. formatDateKey_iso (makeDateBefore today (int i))) [0..<n]"

definition visibleDates_iso :: "int \<Rightarrow> string list" where
  "visibleDates_iso today = visibleDatesN_iso VISIBLE_DAYS today"

text \<open>\<open>formatDateKey\<close> of lines 171-173: local calendar components.\<close>

definition formatDateKey_local :: "timezone \<Rightarrow> int \<Rightarrow> string" where
  "formatDateKey_local tz d =
     String_of (getFullYear tz d) @ ''-'' @ pad (getMonth tz d + 1) @ ''-'' @ pad (getDate tz d)"

text \<open>
  The key of a calendar day: what \<open>formatDateKey\<close> of lines 171-173 gives to an instant
  whose local day number is \<open>z\<close>.
\<close>

definition dateKeyOfDay :: "int \<Rightarrow> string" where
  "dateKeyOfDay z =
     String_of (YearFromDay z) @ ''-'' @ pad (MonthFromDay z + 1) @ ''-'' @ pad (DateFromDay z)"

text \<open>\<open>localMidnight\<close> (lines 186-188).\<close>

definition localMidnight :: "timezone \<Rightarrow> int \<Rightarrow> int" where
  "localMidnight tz date = newDate tz (getFullYear tz date) (getMonth tz date) (getDate tz date)"

text \<open>
  The \<open>visibleDates\<close> initializer of lines 235-245, with \<open>now = new Date()\<close>; the loop
  bound is the first argument.
\<close>

definition visibleDatesFrom :: "nat \<Rightarrow> timezone \<Rightarrow> int \<Rightarrow> string list" where
  "visibleDatesFrom n tz baseLocalMidnight =
     map (\<lambda>i. formatDateKey_local tz
               (newDate tz (getFullYear tz baseLocalMidnight) (getMonth tz baseLocalMidnight)
                  (getDate tz baseLocalMidnight - int i)))
       [0..<n]"

definition visibleDatesN_local :: "nat \<Rightarrow> timezone \<Rightarrow> int \<Rightarrow> string list" where
  "visibleDatesN_local n tz now = visibleDatesFrom n tz (localMidnight tz now)"

definition visibleDates_local :: "timezone \<Rightarrow> int \<Rightarrow> string list" where
  "visibleDates_local tz now = visibleDatesN_local VISIBLE_DAYS tz now"

subsection \<open>Reading the local store\<close>

text \<open>
  A value that \<open>JSON.parse\<close> returns. Numbers are integers here; an object is the list of
  its own properties in the order of \<open>Object.keys\<close>, with distinct keys.
\<close>

datatype json =
  JNull | JBool bool | JNum int | JStr string | JArr "json list" | JObj "(string \<times> json) list"

datatype error = SecurityError | SyntaxError | TypeError

text \<open>
  \<open>readLocalStorageItems\<close> (lines 225-232, 639-646) and the initializer of lines 38-45.
  \<open>getItem\<close> is what \<open>localStorage.getItem\<close> does: it throws, or returns \<open>null\<close> (\<open>None\<close>) or
  the stored string. \<open>parse\<close> is \<open>JSON.parse\<close>: it throws or returns a value. The
  \<open>catch\<close> turns every error into \<open>{}\<close>.
\<close>

definition readLocalStorageItems ::
  "(string \<Rightarrow> error + json) \<Rightarrow> error + string option \<Rightarrow> error + json" where
  "readLocalStorageItems parse getItem =
     (case (case getItem of
              Inl e \<Rightarrow> Inl e
            | Inr raw \<Rightarrow>
                (case raw of
                   None \<Rightarrow> Inr (JObj [])
                 | Some s \<Rightarrow> if s \<noteq> [] then parse s else Inr (JObj []))) of
        Inl e \<Rightarrow> Inr (JObj [])
      | Inr v \<Rightarrow> Inr v)"

text \<open>Whether a value is a dictionary object.\<close>

fun isMapping :: "json \<Rightarrow> bool" where
  "isMapping (JObj kvs) = True"
| "isMapping v = False"

text \<open>
  A stand-in for \<open>JSON.parse\<close> on the bare literals: the texts \<open>null\<close>, \<open>true\<close> and
  \<open>false\<close> parse to their values as \<open>JSON.parse\<close> has them; every other text is
  rejected here. It is the parser of the evaluations below, which store \<open>null\<close> or a text
  that is not JSON.
\<close>

definition parseLiteral :: "string \<Rightarrow> error + json" where
  "parseLiteral s =
     (if s = ''null'' then Inr JNull
      else if s = ''true'' then Inr (JBool True)
      else if s = ''false'' then Inr (JBool False)
      else Inl SyntaxError)"

subsection \<open>The initial state\<close>

text \<open>
  What a property read of the initializer gives: \<open>undefined\<close>, a value of the parsed
  store, or a function inherited from a prototype.
\<close>

datatype jsval = JsUndefined | JsJson json | JsFunction

text \<open>Truthiness, as \<open>||\<close> tests it.\<close>

fun truthy :: "json \<Rightarrow> bool" where
  "truthy JNull = False"
| "truthy (JBool b) = b"
| "truthy (JNum n) = (n \<noteq> 0)"
| "truthy (JStr s) = (s \<noteq> [])"
| "truthy (JArr xs) = True"
| "truthy (JObj kvs) = True"

fun truthyVal :: "jsval \<Rightarrow> bool" where
  "truthyVal JsUndefined = False"
| "truthyVal (JsJson v) = truthy v"
| "truthyVal JsFunction = True"

text \<open>\<open>a || b\<close> on property reads.\<close>

definition orElse :: "jsval \<Rightarrow> jsval \<Rightarrow> jsval" where
  "orElse a b = (if truthyVal a then a else b)"

text \<open>
  \<open>Object.keys(raw)\<close> with \<open>raw[dk]\<close> for each key (lines 251-252): \<open>null\<close> has no keys
  and the call throws; a boolean and a number have none; a string and an array have their
  indices.
\<close>

fun ownEntries :: "json \<Rightarrow> error + (string \<times> json) list" where
  "ownEntries JNull = Inl TypeError"
| "ownEntries (JBool b) = Inr []"
| "ownEntries (JNum n) = Inr []"
| "ownEntries (JStr s) = Inr (map (\<lambda>i. (natString i, JStr [s ! i])) [0..<length s])"
| "ownEntries (JArr xs) = Inr (map (\<lambda>i. (natString i, xs ! i)) [0..<length xs])"
| "ownEntries (JObj kvs) = Inr kvs"

text \<open>
  \<open>(raw[dk] || [])\<close> as the receiver of \<open>.map\<close> (line 252): a falsy value gives the empty
  array; a truthy value that is not an array has no function \<open>map\<close>, and the call throws.
\<close>

fun itemsOrEmpty :: "json \<Rightarrow> error + json list" where
  "itemsOrEmpty (JArr xs) = Inr xs"
| "itemsOrEmpty v = (if truthy v then Inl TypeError else Inr [])"

text \<open>
  \<open>it.id\<close>, \<open>it.title\<close>, \<open>it.link\<close> and \<open>it.createdAtMs\<close> (lines 253-257): reading a
  property of \<open>null\<close> throws; an object gives its own property or \<open>undefined\<close>; of the four
  names only \<open>link\<close> is inherited, by a string (\<open>String.prototype.link\<close>).
\<close>

fun readField :: "json \<Rightarrow> string \<Rightarrow> error + jsval" where
  "readField JNull k = Inl TypeError"
| "readField (JObj kvs) k = Inr (case map_of kvs k of None \<Rightarrow> JsUndefined | Some v \<Rightarrow> JsJson v)"
| "readField (JStr s) k = Inr (if k = ''link'' then JsFunction else JsUndefined)"
| "readField v k = Inr JsUndefined"

text \<open>The item that the initializer keeps: every field is what the store held, or the default.\<close>

record loadedItem =
  ld_id :: jsval
  ld_title :: jsval
  ld_link :: jsval
  ld_createdAtMs :: jsval
  ld_pending :: bool

text \<open>\<open>typeof it.id === "string" && it.id.startsWith("local-")\<close> (line 257).\<close>

fun isLocalString :: "jsval \<Rightarrow> bool" where
  "isLocalString (JsJson (JStr s)) = prefix ''local-'' s"
| "isLocalString v = False"

text \<open>
  The function given to \<open>.map\<close> (lines 252-258): \<open>rnd\<close> is
  \<open>Math.random().toString(36).slice(2)\<close> and \<open>now\<close> is \<open>Date.now()\<close> for this item.
\<close>

definition loadItem :: "string \<Rightarrow> int \<Rightarrow> json \<Rightarrow> error + loadedItem" where
  "loadItem rnd now it =
     (case readField it ''id'' of
        Inl e \<Rightarrow> Inl e
      | Inr i \<Rightarrow>
          (case readField it ''title'' of
             Inl e \<Rightarrow> Inl e
           | Inr t \<Rightarrow>
               (case readField it ''link'' of
                  Inl e \<Rightarrow> Inl e
                | Inr l \<Rightarrow>
                    (case readField it ''createdAtMs'' of
                       Inl e \<Rightarrow> Inl e
                     | Inr c \<Rightarrow>
                         Inr \<lparr>ld_id = orElse i (JsJson (JStr (''local-'' @ rnd))),
                              ld_title = orElse t (JsJson (JStr '''')),
                              ld_link = orElse l (JsJson (JStr '''')),
                              ld_createdAtMs = orElse c (JsJson (JNum now)),
                              ld_pending = isLocalString i\<rparr>))))"

text \<open>\<open>.map\<close> over the items of a day, from position \<open>n\<close> on; the first throw ends it.\<close>

fun loadItems :: "(nat \<Rightarrow> string) \<Rightarrow> (nat \<Rightarrow> int) \<Rightarrow> nat \<Rightarrow> json list \<Rightarrow> error + loadedItem list" where
  "loadItems rnd now n [] = Inr []"
| "loadItems rnd now n (it # its) =
     (case loadItem (rnd n) (now n) it of
        Inl e \<Rightarrow> Inl e
      | Inr x \<Rightarrow>
          (case loadItems rnd now (Suc n) its of
             Inl e \<Rightarrow> Inl e
           | Inr xs \<Rightarrow> Inr (x # xs)))"

text \<open>The loop of lines 251-259 over the keys of the store, writing \<open>mapped[dk]\<close>.\<close>

fun loadDays ::
  "(string \<Rightarrow> nat \<Rightarrow> string) \<Rightarrow> (string \<Rightarrow> nat \<Rightarrow> int) \<Rightarrow> (string \<times> json) list
     \<Rightarrow> (string \<times> loadedItem list) list \<Rightarrow> error + (string \<times> loadedItem list) list" where
  "loadDays rnd now [] mapped = Inr mapped"
| "loadDays rnd now ((dk, v) # rest) mapped =
     (case itemsOrEmpty v of
        Inl e \<Rightarrow> Inl e
      | Inr arr \<Rightarrow>
          (case loadItems (rnd dk) (now dk) 0 arr of
             Inl e \<Rightarrow> Inl e
           | Inr items \<Rightarrow> loadDays rnd now rest (AList.update dk items mapped)))"

text \<open>
  The initializer of \<open>itemsMap\<close> (lines 248-261 and 662-676): it has no \<open>try\<close> of its own,
  so a throw of the loop is a throw of the load. \<open>rnd\<close> and \<open>now\<close> give the random suffix
  and the clock for the item at a position of a day.
\<close>

definition initialItemsMap ::
  "(string \<Rightarrow> error + json) \<Rightarrow> error + string option \<Rightarrow> (string \<Rightarrow> nat \<Rightarrow> string)
     \<Rightarrow> (string \<Rightarrow> nat \<Rightarrow> int) \<Rightarrow> error + (string \<times> loadedItem list) list" where
  "initialItemsMap parse getItem rnd now =
     (case readLocalStorageItems parse getItem of
        Inl e \<Rightarrow> Inl e
      | Inr raw \<Rightarrow>
          (case ownEntries raw of
             Inl e \<Rightarrow> Inl e
           | Inr entries \<Rightarrow> loadDays rnd now entries []))"

subsection \<open>Removing an item\<close>

text \<open>\<open>removeItem\<close> (lines 59-64 and 792-797).\<close>

definition removeItem ::
  "string \<Rightarrow> string \<Rightarrow> (string \<times> ('a baseItem_scheme) list) list
     \<Rightarrow> (string \<times> ('a baseItem_scheme) list) list" where
  "removeItem dateKey i prev =
     (let arr = filter (\<lambda>it. item_id it \<noteq> i) (orEmpty prev dateKey)
      in AList.update dateKey arr prev)"

text \<open>The state update that \<open>deleteItem\<close> writes three times (lines 418-423, 430-435, 440-445).\<close>

definition deleteFromMap :: "string \<Rightarrow> string \<Rightarrow> itemsMap \<Rightarrow> itemsMap" where
  "deleteFromMap dateKey i prev =
     (let arr = filter (\<lambda>it. item_id it \<noteq> i) (orEmpty prev dateKey);
          newMap = prev
      in if length arr > 0 then AList.update dateKey arr newMap else AList.delete dateKey newMap)"

text \<open>
  \<open>deleteItem\<close> (lines 414-447). \<open>db\<close> says whether the Firestore handle is non-null;
  \<open>deleteDocOk\<close> says whether the awaited \<open>deleteDoc\<close> resolves (\<open>True\<close>) or rejects.
\<close>

definition deleteItem :: "bool \<Rightarrow> bool \<Rightarrow> string \<Rightarrow> string \<Rightarrow> itemsMap \<Rightarrow> itemsMap" where
  "deleteItem db deleteDocOk dateKey i prev =
     (if i = [] then prev
      else if prefix ''local-'' i then deleteFromMap dateKey i prev
      else if db then (if deleteDocOk then deleteFromMap dateKey i prev else prev)
      else deleteFromMap dateKey i prev)"

subsection \<open>Persisting\<close>

text \<open>The stored shape \<open>{ id, title, link, createdAtMs }\<close> (lines 372, 750).\<close>

definition storedItem :: "item \<Rightarrow> json" where
  "storedItem it =
     JObj [(''id'', JStr (item_id it)), (''title'', JStr (title it)), (''link'', JStr (link it)),
           (''createdAtMs'', JNum (createdAtMs it))]"

text \<open>The object given to \<open>JSON.stringify\<close> by the effect of lines 366-379: empty days are skipped.\<close>

definition toSave :: "itemsMap \<Rightarrow> (string \<times> json) list" where
  "toSave m =
     fold (\<lambda>dk acc. let arr = orEmpty m dk
                     in if length arr > 0 then AList.update dk (JArr (map storedItem arr)) acc else acc)
       (map fst m) []"

text \<open>The object given to \<open>JSON.stringify\<close> by the effect of lines 745-756: every day is kept.\<close>

definition toSave_all :: "itemsMap \<Rightarrow> (string \<times> json) list" where
  "toSave_all m =
     fold (\<lambda>dk acc. AList.update dk (JArr (map storedItem (orEmpty m dk))) acc) (map fst m) []"

subsection \<open>Merging a fetch into the state\<close>

definition itemKey :: "string \<Rightarrow> int \<Rightarrow> string" where
  "itemKey ttl ms = ttl @ ''::'' @ String_of ms"

text \<open>\<open>filteredLocal\<close> (lines 301-305): the local items of the bucket that no server record matches.\<close>

definition filteredLocal :: "serverRec list \<Rightarrow> item list \<Rightarrow> item list" where
  "filteredLocal serverArr bucket =
     (let localArr = filter (\<lambda>i. isLocalId (item_id i)) bucket;
          serverKeys = set (map (\<lambda>s. itemKey (srv_title s) (srv_createdAtMs s)) serverArr)
      in filter (\<lambda>l. itemKey (title l) (createdAtMs l) \<notin> serverKeys) localArr)"

text \<open>\<open>{ ...s, pending: false }\<close> and \<open>normalizedServer\<close> (line 307).\<close>

definition notPending :: "serverRec \<Rightarrow> item" where
  "notPending s =
     \<lparr>item_id = srv_id s, title = srv_title s, link = srv_link s,
      createdAtMs = srv_createdAtMs s, pending = False\<rparr>"

definition normalizedServer :: "serverRec list \<Rightarrow> item list" where
  "normalizedServer serverArr = map notPending serverArr"

text \<open>One pass of the loop body of lines 300-313, on the bucket and the server list of a day.\<close>

definition mergeDay :: "serverRec list \<Rightarrow> item list \<Rightarrow> item list" where
  "mergeDay serverArr bucket =
     (let merged = normalizedServer serverArr @ filteredLocal serverArr bucket
      in sort_key (\<lambda>a. orZero (createdAtMs a)) merged)"

text \<open>The updater of lines 298-316: \<open>newMap = { ...prev }\<close>, then one pass per visible day.\<close>

definition mergeFetched ::
  "string list \<Rightarrow> (string \<times> serverRec list) list \<Rightarrow> itemsMap \<Rightarrow> itemsMap" where
  "mergeFetched visibleDates fromServer prev =
     fold (\<lambda>dk newMap. AList.update dk (mergeDay (orEmpty fromServer dk) (orEmpty newMap dk)) newMap)
       visibleDates prev"

subsection \<open>Adding an item and promoting it\<close>

text \<open>The first updater of \<open>addItem\<close> (lines 386-391).\<close>

definition insertLocal :: "string \<Rightarrow> item \<Rightarrow> itemsMap \<Rightarrow> itemsMap" where
  "insertLocal dateKey localRec prev =
     (let arr = (case map_of prev dateKey of Some a \<Rightarrow> a | None \<Rightarrow> []);
          arr = arr @ [localRec];
          arr = sort_key (\<lambda>a. orZero (createdAtMs a)) arr
      in AList.update dateKey arr prev)"

text \<open>The promotion updater (lines 352-355 and 404-407).\<close>

definition promote :: "string \<Rightarrow> string \<Rightarrow> string \<Rightarrow> itemsMap \<Rightarrow> itemsMap" where
  "promote dateKey localId docId prev =
     (let arr = map (\<lambda>it. if item_id it = localId then it\<lparr>item_id := docId, pending := False\<rparr> else it)
                  (orEmpty prev dateKey)
      in AList.update dateKey arr prev)"

text \<open>
  \<open>addItem\<close> (lines 381-411), with no other update between its two: \<open>now\<close> is
  \<open>Date.now()\<close>, \<open>rnd\<close> is \<open>Math.random().toString(36).slice(2)\<close>, \<open>addDoc\<close> is the
  identity of the created document, or \<open>None\<close> when the awaited call rejects.
\<close>

definition addItem ::
  "bool \<Rightarrow> string option \<Rightarrow> string \<Rightarrow> string \<Rightarrow> string \<Rightarrow> int \<Rightarrow> string \<Rightarrow> itemsMap \<Rightarrow> itemsMap" where
  "addItem db addDoc dateKey ttl lnk now rnd prev =
     (let createdAt = now;
          localId = ''local-'' @ rnd;
          localRec = \<lparr>item_id = localId, title = ttl, link = lnk, createdAtMs = createdAt, pending = True\<rparr>;
          s1 = insertLocal dateKey localRec prev
      in if \<not> db then s1
         else (case addDoc of
                 Some docId \<Rightarrow> promote dateKey localId docId s1
               | None \<Rightarrow> s1))"

subsection \<open>The upload sweep\<close>

text \<open>The \<open>pendingEntries\<close> of lines 330-337.\<close>

definition pendingEntries :: "itemsMap \<Rightarrow> (string \<times> item) list" where
  "pendingEntries m =
     concat (map (\<lambda>dk. map (\<lambda>it. (dk, it)) (filter (\<lambda>it. isLocalId (item_id it)) (orEmpty m dk)))
               (map fst m))"

text \<open>
  The loop of lines 341-359: \<open>addDoc\<close> is called for every entry; a resolved call promotes
  the item in the current state, a rejected one is only logged.
\<close>

fun uploadLoop ::
  "(string \<times> item \<Rightarrow> string option) \<Rightarrow> (string \<times> item) list \<Rightarrow> itemsMap \<Rightarrow> itemsMap" where
  "uploadLoop addDoc [] cur = cur"
| "uploadLoop addDoc ((dateKey, it) # rest) cur =
     (case addDoc (dateKey, it) of
        Some docId \<Rightarrow> uploadLoop addDoc rest (promote dateKey (item_id it) docId cur)
      | None \<Rightarrow> uploadLoop addDoc rest cur)"

text \<open>The entries for which one run of \<open>uploadPending\<close> (lines 326-363) calls \<open>addDoc\<close>.\<close>

definition uploadAttempts :: "bool \<Rightarrow> itemsMap \<Rightarrow> (string \<times> item) list" where
  "uploadAttempts db m = (if \<not> db then [] else pendingEntries m)"

definition uploadPending ::
  "bool \<Rightarrow> (string \<times> item \<Rightarrow> string option) \<Rightarrow> itemsMap \<Rightarrow> itemsMap" where
  "uploadPending db addDoc m = (if \<not> db then m else uploadLoop addDoc (pendingEntries m) m)"

text \<open>
  What the effect of lines 326-363 depends on: \<open>[db, itemsMap]\<close> (line 363). After a
  render the effect runs again when one of the two changed. React compares by identity and
  every updater of the file returns a fresh object; the model compares by value, so it
  runs the effect no more often than React does.
\<close>

record rendered =
  r_db :: bool
  r_itemsMap :: itemsMap

definition uploadEffectRuns :: "rendered \<Rightarrow> rendered \<Rightarrow> bool" where
  "uploadEffectRuns before after =
     (r_db before \<noteq> r_db after \<or> r_itemsMap before \<noteq> r_itemsMap after)"

text \<open>
  The calls of \<open>addDoc\<close> that the sweep makes after a render: none when the effect does
  not run or returns at line 327.
\<close>

definition sweepCalls :: "rendered \<Rightarrow> rendered \<Rightarrow> (string \<times> item) list" where
  "sweepCalls before after =
     (if uploadEffectRuns before after then uploadAttempts (r_db after) (r_itemsMap after) else [])"

text \<open>The remote adapter goes from unavailable to available between two renders.\<close>

definition availabilityTransition :: "rendered \<Rightarrow> rendered \<Rightarrow> bool" where
  "availabilityTransition before after = (\<not> r_db before \<and> r_db after)"

text \<open>An \<open>addDoc\<close> that rejects every call.\<close>

definition addDocRejects :: "string \<times> item \<Rightarrow> string option" where
  "addDocRejects entry = None"

section \<open>Properties\<close>

subsection \<open>Buckets, the merge of a day and the merge of the window\<close>

lemma orZero_id: "orZero x = x"
  by (simp add: orZero_def)

lemma orEmpty_update: "orEmpty (AList.update k v m) k' = (if k' = k then v else orEmpty m k')"
  by (simp add: orEmpty_def update_conv')

lemma orEmpty_delete: "orEmpty (AList.delete k m) k' = (if k' = k then [] else orEmpty m k')"
  by (simp add: orEmpty_def delete_conv')

lemma mergeDay_eq:
  "mergeDay serverArr bucket
     = sort_key createdAtMs (normalizedServer serverArr @ filteredLocal serverArr bucket)"
  by (simp add: mergeDay_def orZero_id)

lemma sort_key_append_sorted: "sort_key f (xs @ sort_key f ys) = sort_key f (xs @ ys)"
proof -
  have "sort_key f (sort_key f ys) = sort_key f ys"
    by (simp add: sort_key_id_if_sorted)
  then show ?thesis
    by (simp add: sort_key_def)
qed

lemma filteredLocal_key:
  "l \<in> set (filteredLocal serverArr bucket) \<Longrightarrow> s \<in> set serverArr
     \<Longrightarrow> \<not> (title l = srv_title s \<and> createdAtMs l = srv_createdAtMs s)"
  by (auto simp: filteredLocal_def)

lemma filteredLocal_normalized: "filteredLocal serverArr (normalizedServer serverArr) = []"
  by (auto simp: filteredLocal_def normalizedServer_def notPending_def filter_empty_conv)

lemma filteredLocal_idem:
  "filteredLocal serverArr (filteredLocal serverArr bucket) = filteredLocal serverArr bucket"
  by (auto simp: filteredLocal_def intro!: filter_cong)

lemma filteredLocal_append:
  "filteredLocal serverArr (xs @ ys) = filteredLocal serverArr xs @ filteredLocal serverArr ys"
  by (simp add: filteredLocal_def)

lemma filteredLocal_sort:
  "filteredLocal serverArr (sort_key f xs) = sort_key f (filteredLocal serverArr xs)"
  by (simp add: filteredLocal_def filter_sort)

lemma mergeDay_idem: "mergeDay serverArr (mergeDay serverArr bucket) = mergeDay serverArr bucket"
  by (simp add: mergeDay_eq filteredLocal_sort filteredLocal_append filteredLocal_normalized
      filteredLocal_idem sort_key_append_sorted)

lemma mergeDay_sorted: "sorted (map createdAtMs (mergeDay serverArr bucket))"
  by (simp add: mergeDay_eq)

lemma mergeFetched_Nil: "mergeFetched [] fromServer prev = prev"
  by (simp add: mergeFetched_def)

lemma mergeFetched_Cons:
  "mergeFetched (dk # ds) fromServer prev =
     mergeFetched ds fromServer
       (AList.update dk (mergeDay (orEmpty fromServer dk) (orEmpty prev dk)) prev)"
  by (simp add: mergeFetched_def)

lemma mergeFetched_other:
  "dk \<notin> set visibleDates \<Longrightarrow> map_of (mergeFetched visibleDates fromServer prev) dk = map_of prev dk"
  by (induction visibleDates arbitrary: prev) (auto simp: mergeFetched_Nil mergeFetched_Cons update_conv')

lemma mergeFetched_visible:
  "dk \<in> set visibleDates \<Longrightarrow>
     map_of (mergeFetched visibleDates fromServer prev) dk
       = Some (mergeDay (orEmpty fromServer dk) (orEmpty prev dk))"
proof (induction visibleDates arbitrary: prev)
  case Nil
  then show ?case by simp
next
  case (Cons d ds)
  let ?p = "AList.update d (mergeDay (orEmpty fromServer d) (orEmpty prev d)) prev"
  show ?case
  proof (cases "dk \<in> set ds")
    case True
    from Cons.IH[OF True, of ?p] show ?thesis
      by (simp add: mergeFetched_Cons orEmpty_update mergeDay_idem)
  next
    case False
    with Cons.prems have "dk = d" by simp
    with False show ?thesis
      by (simp add: mergeFetched_Cons mergeFetched_other update_conv')
  qed
qed

lemma mergeFetched_bucket:
  "dk \<in> set visibleDates \<Longrightarrow>
     orEmpty (mergeFetched visibleDates fromServer prev) dk
       = mergeDay (orEmpty fromServer dk) (orEmpty prev dk)"
  by (simp add: orEmpty_def mergeFetched_visible)

lemma mergeFetched_bucket_other:
  "dk \<notin> set visibleDates \<Longrightarrow>
     orEmpty (mergeFetched visibleDates fromServer prev) dk = orEmpty prev dk"
  by (simp add: orEmpty_def mergeFetched_other)

lemma mergeFetched_fixed:
  assumes "\<And>dk. dk \<in> set visibleDates \<Longrightarrow> \<exists>L. map_of m dk = Some (mergeDay (orEmpty fromServer dk) L)"
  shows "mergeFetched visibleDates fromServer m = m"
  using assms
proof (induction visibleDates)
  case Nil
  then show ?case by (simp add: mergeFetched_Nil)
next
  case (Cons d ds)
  from Cons.prems[of d] obtain L where L: "map_of m d = Some (mergeDay (orEmpty fromServer d) L)"
    by auto
  then have "orEmpty m d = mergeDay (orEmpty fromServer d) L"
    by (simp add: orEmpty_def)
  then have "AList.update d (mergeDay (orEmpty fromServer d) (orEmpty m d)) m = m"
    using L by (simp add: mergeDay_idem update_triv)
  moreover have "mergeFetched ds fromServer m = m"
    using Cons.IH Cons.prems by simp
  ultimately show ?case by (simp add: mergeFetched_Cons)
qed

lemma same_stamp_sorted:
  "sorted (map createdAtMs (filter (\<lambda>x. title x = t \<and> createdAtMs x = c) xs))"
  by (induction xs) auto

lemma promote_bucket:
  "orEmpty (promote dateKey localId docId prev) d =
     (if d = dateKey
      then map (\<lambda>it. if item_id it = localId then it\<lparr>item_id := docId, pending := False\<rparr> else it)
             (orEmpty prev dateKey)
      else orEmpty prev d)"
  by (simp add: promote_def orEmpty_update)

lemma promote_stamps:
  "map createdAtMs (orEmpty (promote dateKey localId docId prev) d) = map createdAtMs (orEmpty prev d)"
  by (simp add: promote_bucket)

lemma insertLocal_bucket:
  "orEmpty (insertLocal dateKey localRec prev) d =
     (if d = dateKey then sort_key createdAtMs (orEmpty prev dateKey @ [localRec]) else orEmpty prev d)"
  by (simp add: insertLocal_def orEmpty_update orZero_id) (simp add: orEmpty_def)

subsection \<open>Removal, persistence and insertion\<close>

lemma removeItem_bucket:
  "orEmpty (removeItem dateKey i prev) d =
     (if d = dateKey then filter (\<lambda>it. item_id it \<noteq> i) (orEmpty prev dateKey) else orEmpty prev d)"
  by (simp add: removeItem_def orEmpty_update)

lemma deleteFromMap_bucket:
  "orEmpty (deleteFromMap dateKey i prev) d =
     (if d = dateKey then filter (\<lambda>it. item_id it \<noteq> i) (orEmpty prev dateKey) else orEmpty prev d)"
  by (simp add: deleteFromMap_def Let_def orEmpty_update orEmpty_delete)

lemma filter_absent_id:
  "i \<notin> set (map item_id xs) \<Longrightarrow> filter (\<lambda>it. item_id it \<noteq> i) xs = xs"
  by (induction xs) auto

lemma toSave_fold:
  "map_of (fold (\<lambda>dk acc. let arr = orEmpty m dk
                            in if length arr > 0 then AList.update dk (JArr (map storedItem arr)) acc
                               else acc) ks acc0) d
     = (if d \<in> set ks \<and> orEmpty m d \<noteq> [] then Some (JArr (map storedItem (orEmpty m d)))
        else map_of acc0 d)"
  by (induction ks arbitrary: acc0) (auto simp: update_conv' Let_def)

lemma orEmpty_keys: "orEmpty m d \<noteq> [] \<Longrightarrow> d \<in> set (map fst m)"
  by (auto simp: orEmpty_def split: option.splits dest: map_of_SomeD intro: rev_image_eqI)

lemma toSave_lookup:
  "map_of (toSave m) d
     = (if orEmpty m d = [] then None else Some (JArr (map storedItem (orEmpty m d))))"
  unfolding toSave_def toSave_fold using orEmpty_keys[of m d] by auto

lemma toSave_all_fold:
  "map_of (fold (\<lambda>dk acc. AList.update dk (JArr (map storedItem (orEmpty m dk))) acc) ks acc0) d
     = (if d \<in> set ks then Some (JArr (map storedItem (orEmpty m d))) else map_of acc0 d)"
  by (induction ks arbitrary: acc0) (auto simp: update_conv')

lemma toSave_all_lookup:
  "map_of (toSave_all m) d
     = (if d \<in> set (map fst m) then Some (JArr (map storedItem (orEmpty m d))) else None)"
  unfolding toSave_all_def toSave_all_fold by simp

lemma removeItem_keys: "dateKey \<in> set (map fst (removeItem dateKey i prev))"
  by (simp add: removeItem_def update_keys)

lemma addItem_stamps_sorted:
  "sorted (map createdAtMs (orEmpty prev d)) \<or> d = dateKey \<Longrightarrow>
     sorted (map createdAtMs (orEmpty (addItem db addDoc dateKey ttl lnk now rnd prev) d))"
proof -
  assume a: "sorted (map createdAtMs (orEmpty prev d)) \<or> d = dateKey"
  let ?r = "\<lparr>item_id = ''local-'' @ rnd, title = ttl, link = lnk, createdAtMs = now, pending = True\<rparr>"
  have 1: "sorted (map createdAtMs (orEmpty (insertLocal dateKey ?r prev) d))"
    using a by (auto simp: insertLocal_bucket)
  then have 2: "sorted (map createdAtMs (orEmpty (promote dateKey li di (insertLocal dateKey ?r prev)) d))"
    for li di
    by (simp only: promote_stamps)
  show ?thesis
    using 1 2 by (simp add: addItem_def Let_def split: option.splits)
qed

subsection \<open>Duplicate suppression\<close>

text \<open>
  C3. On a visible day, when a local item of the bucket (identity with the local prefix) has
  the title and the \<open>createdAtMs\<close> of a server record of that day, the merge drops it: the
  entries of the merged bucket with this title and \<open>createdAtMs\<close> are exactly the server
  records with them, in the server's order and not pending, and the local item, being
  pending, is not in the merged bucket. The witness is the example of the specification:
  local \<open>{title: "A", createdAt: 1000}\<close> and remote \<open>{title: "A", createdAt: 1000, id: "r1"}\<close>
  merge to the single entry \<open>r1\<close>, not pending.
\<close>

theorem merge_drops_matched_local:
  assumes vis: "dk \<in> set visibleDates"
    and l: "l \<in> set (orEmpty prev dk)" "isLocalId (item_id l)"
    and s: "s \<in> set (orEmpty fromServer dk)" "title l = srv_title s"
      "createdAtMs l = srv_createdAtMs s"
  shows "filter (\<lambda>x. title x = title l \<and> createdAtMs x = createdAtMs l)
           (orEmpty (mergeFetched visibleDates fromServer prev) dk)
         = map notPending
             (filter (\<lambda>r. srv_title r = title l \<and> srv_createdAtMs r = createdAtMs l)
                (orEmpty fromServer dk))
       \<and> (pending l \<longrightarrow> l \<notin> set (orEmpty (mergeFetched visibleDates fromServer prev) dk))"
proof -
  let ?P = "\<lambda>x. title x = title l \<and> createdAtMs x = createdAtMs l"
  let ?S = "orEmpty fromServer dk"
  let ?B = "orEmpty (mergeFetched visibleDates fromServer prev) dk"
  have B: "?B = sort_key createdAtMs (normalizedServer ?S @ filteredLocal ?S (orEmpty prev dk))"
    using vis by (simp add: mergeFetched_bucket mergeDay_eq)
  have none: "filter ?P (filteredLocal ?S (orEmpty prev dk)) = []"
    using s filteredLocal_key[of _ ?S "orEmpty prev dk" s] by (auto simp: filter_empty_conv)
  have srv: "filter ?P (normalizedServer ?S)
               = map notPending (filter (\<lambda>r. srv_title r = title l \<and> srv_createdAtMs r = createdAtMs l) ?S)"
    by (simp add: normalizedServer_def filter_map comp_def notPending_def)
  have "filter ?P ?B = sort_key createdAtMs (filter ?P (normalizedServer ?S))"
    by (simp add: B filter_sort none)
  also have "\<dots> = filter ?P (normalizedServer ?S)"
    by (rule sort_key_id_if_sorted) (rule same_stamp_sorted)
  finally have eq: "filter ?P ?B
      = map notPending (filter (\<lambda>r. srv_title r = title l \<and> srv_createdAtMs r = createdAtMs l) ?S)"
    by (simp add: srv)
  have "l \<notin> set ?B" if p: "pending l"
  proof
    assume "l \<in> set ?B"
    then have "l \<in> set (filter ?P ?B)" by simp
    then have "l \<in> notPending ` set ?S" unfolding eq by auto
    then have "\<not> pending l" by (auto simp: notPending_def)
    with p show False by simp
  qed
  with eq show ?thesis by simp
qed

theorem merge_drops_matched_local_witness:
  "filter (\<lambda>x. title x = ''A'' \<and> createdAtMs x = 1000)
     (orEmpty (mergeFetched [''2024-01-01'']
        [(''2024-01-01'', [\<lparr>srv_id = ''r1'', srv_title = ''A'', srv_link = '''', srv_createdAtMs = 1000\<rparr>])]
        [(''2024-01-01'', [\<lparr>item_id = ''local-k3x'', title = ''A'', link = '''', createdAtMs = 1000, pending = True\<rparr>])])
      ''2024-01-01'')
   = [\<lparr>item_id = ''r1'', title = ''A'', link = '''', createdAtMs = 1000, pending = False\<rparr>]
   \<and> orEmpty (mergeFetched [''2024-01-01'']
        [(''2024-01-01'', [\<lparr>srv_id = ''r1'', srv_title = ''A'', srv_link = '''', srv_createdAtMs = 1000\<rparr>])]
        [(''2024-01-01'', [\<lparr>item_id = ''local-k3x'', title = ''A'', link = '''', createdAtMs = 1000, pending = True\<rparr>])])
      ''2024-01-01''
   = [\<lparr>item_id = ''r1'', title = ''A'', link = '''', createdAtMs = 1000, pending = False\<rparr>]"
proof -
  let ?s = "\<lparr>srv_id = ''r1'', srv_title = ''A'', srv_link = '''', srv_createdAtMs = 1000\<rparr>"
  let ?l = "\<lparr>item_id = ''local-k3x'', title = ''A'', link = '''', createdAtMs = 1000, pending = True\<rparr>"
  let ?srv = "[(''2024-01-01'', [?s])]"
  let ?prev = "[(''2024-01-01'', [?l])]"
  have S: "orEmpty ?srv ''2024-01-01'' = [?s]" and L: "orEmpty ?prev ''2024-01-01'' = [?l]"
    by (simp_all add: orEmpty_def)
  have h1: "''2024-01-01'' \<in> set [''2024-01-01'']" by simp
  have h2: "?l \<in> set (orEmpty ?prev ''2024-01-01'')" by (simp add: L)
  have h3: "isLocalId (item_id ?l)" by (simp add: isLocalId_def)
  have h4: "?s \<in> set (orEmpty ?srv ''2024-01-01'')" by (simp add: S)
  have h5: "title ?l = srv_title ?s" and h6: "createdAtMs ?l = srv_createdAtMs ?s" by simp_all
  have fl: "filteredLocal [?s] [?l] = []"
    by (simp add: filteredLocal_def isLocalId_def)
  have B: "orEmpty (mergeFetched [''2024-01-01''] ?srv ?prev) ''2024-01-01''
             = [\<lparr>item_id = ''r1'', title = ''A'', link = '''', createdAtMs = 1000, pending = False\<rparr>]"
    by (simp add: mergeFetched_bucket S L mergeDay_eq fl normalizedServer_def notPending_def)
  from merge_drops_matched_local [OF h1 h2 h3 h4 h5 h6] show ?thesis
    by (simp add: S B notPending_def)
qed

subsection \<open>Idempotence of the merge\<close>

text \<open>
  C5. The reconciliation merge is idempotent: merging the output of a merge again with the
  same server records gives the same ordered list, for one day and for the whole mapping
  (also when a day occurs twice in the window).
\<close>

theorem merge_idempotent:
  "mergeDay serverArr (mergeDay serverArr bucket) = mergeDay serverArr bucket \<and>
   mergeFetched visibleDates fromServer (mergeFetched visibleDates fromServer prev)
     = mergeFetched visibleDates fromServer prev"
proof
  show "mergeDay serverArr (mergeDay serverArr bucket) = mergeDay serverArr bucket"
    by (rule mergeDay_idem)
  show "mergeFetched visibleDates fromServer (mergeFetched visibleDates fromServer prev)
          = mergeFetched visibleDates fromServer prev"
    by (rule mergeFetched_fixed) (blast intro: mergeFetched_visible)
qed

theorem merge_idempotent_witness:
  "mergeFetched [''2024-01-02'', ''2024-01-01'']
     [(''2024-01-01'', [\<lparr>srv_id = ''r1'', srv_title = ''A'', srv_link = '''', srv_createdAtMs = 1000\<rparr>])]
     (mergeFetched [''2024-01-02'', ''2024-01-01'']
        [(''2024-01-01'', [\<lparr>srv_id = ''r1'', srv_title = ''A'', srv_link = '''', srv_createdAtMs = 1000\<rparr>])]
        [(''2024-01-01'', [\<lparr>item_id = ''local-k3x'', title = ''B'', link = '''', createdAtMs = 900, pending = True\<rparr>])])
   = mergeFetched [''2024-01-02'', ''2024-01-01'']
        [(''2024-01-01'', [\<lparr>srv_id = ''r1'', srv_title = ''A'', srv_link = '''', srv_createdAtMs = 1000\<rparr>])]
        [(''2024-01-01'', [\<lparr>item_id = ''local-k3x'', title = ''B'', link = '''', createdAtMs = 900, pending = True\<rparr>])]"
  using merge_idempotent [of "[]" "[]" "[''2024-01-02'', ''2024-01-01'']"
      "[(''2024-01-01'', [\<lparr>srv_id = ''r1'', srv_title = ''A'', srv_link = '''', srv_createdAtMs = 1000\<rparr>])]"
      "[(''2024-01-01'', [\<lparr>item_id = ''local-k3x'', title = ''B'', link = '''', createdAtMs = 900, pending = True\<rparr>])]"]
  by (rule conjunct2)

subsection \<open>Days outside the window\<close>

text \<open>
  C9. The merge replaces only the buckets of the days of the visible window: the bucket of
  every other day is what it was before.
\<close>

theorem merge_only_visible_days:
  "dk \<notin> set visibleDates \<Longrightarrow> map_of (mergeFetched visibleDates fromServer prev) dk = map_of prev dk"
proof (induction visibleDates arbitrary: prev)
  case Nil
  show ?case by (simp add: mergeFetched_Nil)
next
  case (Cons d ds)
  then have "dk \<noteq> d" and "dk \<notin> set ds" by auto
  then show ?case
    using Cons.IH by (simp add: mergeFetched_Cons update_conv')
qed

theorem merge_only_visible_days_witness:
  "''2023-11-30'' \<notin> set [''2024-01-02'', ''2024-01-01''] \<and>
   map_of (mergeFetched [''2024-01-02'', ''2024-01-01'']
       [(''2024-01-01'', [\<lparr>srv_id = ''r1'', srv_title = ''A'', srv_link = '''', srv_createdAtMs = 1000\<rparr>])]
       [(''2023-11-30'', [\<lparr>item_id = ''r0'', title = ''old'', link = '''', createdAtMs = 5, pending = False\<rparr>])])
     ''2023-11-30''
   = Some [\<lparr>item_id = ''r0'', title = ''old'', link = '''', createdAtMs = 5, pending = False\<rparr>]"
proof -
  have h: "''2023-11-30'' \<notin> set [''2024-01-02'', ''2024-01-01'']" by simp
  from merge_only_visible_days [OF h] show ?thesis by simp
qed

subsection \<open>Order within a day\<close>

text \<open>
  C4. After a merge the bucket of every visible day, and after \<open>addItem\<close> the bucket of the
  day added to, is ordered non-decreasing by \<open>createdAtMs\<close>, whatever the server records
  and the previous bucket were; the sort is stable: the entries with one \<open>createdAtMs\<close> keep
  the order of the list that was sorted (server records before the surviving local items;
  the previous bucket before the new item). When every bucket was ordered before, every
  bucket is ordered after a merge and after \<open>addItem\<close> (with or without promotion).
\<close>

theorem buckets_sorted_stable:
  "(dk \<in> set visibleDates \<longrightarrow>
      sorted (map createdAtMs (orEmpty (mergeFetched visibleDates fromServer prev) dk))
      \<and> filter (\<lambda>a. createdAtMs a = k) (orEmpty (mergeFetched visibleDates fromServer prev) dk)
          = filter (\<lambda>a. createdAtMs a = k)
              (normalizedServer (orEmpty fromServer dk)
                 @ filteredLocal (orEmpty fromServer dk) (orEmpty prev dk)))
   \<and> sorted (map createdAtMs (orEmpty (insertLocal dateKey localRec prev) dateKey))
   \<and> filter (\<lambda>a. createdAtMs a = k) (orEmpty (insertLocal dateKey localRec prev) dateKey)
       = filter (\<lambda>a. createdAtMs a = k) (orEmpty prev dateKey @ [localRec])
   \<and> sorted (map createdAtMs (orEmpty (addItem db addDoc dateKey ttl lnk now rnd prev) dateKey))
   \<and> ((\<forall>d. sorted (map createdAtMs (orEmpty prev d))) \<longrightarrow>
        (\<forall>d. sorted (map createdAtMs (orEmpty (mergeFetched visibleDates fromServer prev) d))
           \<and> sorted (map createdAtMs (orEmpty (addItem db addDoc dateKey ttl lnk now rnd prev) d))))"
proof (intro conjI impI allI)
  assume vis: "dk \<in> set visibleDates"
  show "sorted (map createdAtMs (orEmpty (mergeFetched visibleDates fromServer prev) dk))"
    using vis by (simp add: mergeFetched_bucket mergeDay_sorted)
  show "filter (\<lambda>a. createdAtMs a = k) (orEmpty (mergeFetched visibleDates fromServer prev) dk)
          = filter (\<lambda>a. createdAtMs a = k)
              (normalizedServer (orEmpty fromServer dk)
                 @ filteredLocal (orEmpty fromServer dk) (orEmpty prev dk))"
    using vis by (simp only: mergeFetched_bucket mergeDay_eq sort_key_stable)
next
  show "sorted (map createdAtMs (orEmpty (insertLocal dateKey localRec prev) dateKey))"
    by (simp add: insertLocal_bucket)
  show "filter (\<lambda>a. createdAtMs a = k) (orEmpty (insertLocal dateKey localRec prev) dateKey)
          = filter (\<lambda>a. createdAtMs a = k) (orEmpty prev dateKey @ [localRec])"
    by (simp only: insertLocal_bucket refl if_True sort_key_stable)
  show "sorted (map createdAtMs (orEmpty (addItem db addDoc dateKey ttl lnk now rnd prev) dateKey))"
    by (rule addItem_stamps_sorted) simp
next
  fix d
  assume inv: "\<forall>d. sorted (map createdAtMs (orEmpty prev d))"
  show "sorted (map createdAtMs (orEmpty (mergeFetched visibleDates fromServer prev) d))"
    using inv by (cases "d \<in> set visibleDates")
      (simp_all add: mergeFetched_bucket mergeDay_sorted mergeFetched_bucket_other)
  show "sorted (map createdAtMs (orEmpty (addItem db addDoc dateKey ttl lnk now rnd prev) d))"
    using inv by (intro addItem_stamps_sorted) simp
qed

theorem buckets_sorted_stable_witness:
  "orEmpty (mergeFetched [''2024-01-01'']
      [(''2024-01-01'', [\<lparr>srv_id = ''r1'', srv_title = ''A'', srv_link = '''', srv_createdAtMs = 1000\<rparr>,
                         \<lparr>srv_id = ''r2'', srv_title = ''B'', srv_link = '''', srv_createdAtMs = 500\<rparr>])]
      [(''2024-01-01'', [\<lparr>item_id = ''local-k3x'', title = ''C'', link = '''', createdAtMs = 500, pending = True\<rparr>])])
     ''2024-01-01''
   = [\<lparr>item_id = ''r2'', title = ''B'', link = '''', createdAtMs = 500, pending = False\<rparr>,
      \<lparr>item_id = ''local-k3x'', title = ''C'', link = '''', createdAtMs = 500, pending = True\<rparr>,
      \<lparr>item_id = ''r1'', title = ''A'', link = '''', createdAtMs = 1000, pending = False\<rparr>]
   \<and> sorted (map createdAtMs (orEmpty (mergeFetched [''2024-01-01'']
      [(''2024-01-01'', [\<lparr>srv_id = ''r1'', srv_title = ''A'', srv_link = '''', srv_createdAtMs = 1000\<rparr>,
                         \<lparr>srv_id = ''r2'', srv_title = ''B'', srv_link = '''', srv_createdAtMs = 500\<rparr>])]
      [(''2024-01-01'', [\<lparr>item_id = ''local-k3x'', title = ''C'', link = '''', createdAtMs = 500, pending = True\<rparr>])])
     ''2024-01-01''))
   \<and> sorted (map createdAtMs (orEmpty (addItem True None ''2024-01-02'' ''D'' '''' 1500 ''q7''
      [(''2024-01-01'', [\<lparr>item_id = ''local-k3x'', title = ''C'', link = '''', createdAtMs = 500, pending = True\<rparr>])])
     ''2024-01-01''))"
proof -
  let ?s1 = "\<lparr>srv_id = ''r1'', srv_title = ''A'', srv_link = '''', srv_createdAtMs = 1000\<rparr>"
  let ?s2 = "\<lparr>srv_id = ''r2'', srv_title = ''B'', srv_link = '''', srv_createdAtMs = 500\<rparr>"
  let ?l = "\<lparr>item_id = ''local-k3x'', title = ''C'', link = '''', createdAtMs = 500, pending = True\<rparr>"
  let ?srv = "[(''2024-01-01'', [?s1, ?s2])]"
  let ?prev = "[(''2024-01-01'', [?l])]"
  have S: "orEmpty ?srv ''2024-01-01'' = [?s1, ?s2]" and L: "orEmpty ?prev ''2024-01-01'' = [?l]"
    by (simp_all add: orEmpty_def)
  have h1: "''2024-01-01'' \<in> set [''2024-01-01'']" by simp
  have h2: "\<forall>d. sorted (map createdAtMs (orEmpty ?prev d))" by (simp add: orEmpty_def)
  have fl: "filteredLocal [?s1, ?s2] [?l] = [?l]"
    by (simp add: filteredLocal_def isLocalId_def itemKey_def)
  have B: "orEmpty (mergeFetched [''2024-01-01''] ?srv ?prev) ''2024-01-01''
             = [notPending ?s2, ?l, notPending ?s1]"
    by (simp add: mergeFetched_bucket S L mergeDay_eq fl normalizedServer_def notPending_def)
  from buckets_sorted_stable [where dk = "''2024-01-01''" and visibleDates = "[''2024-01-01'']"
      and fromServer = ?srv and prev = ?prev and db = True and addDoc = None
      and dateKey = "''2024-01-02''" and ttl = "''D''" and lnk = "''''" and now = 1500 and rnd = "''q7''"]
    h1 h2
  have "sorted (map createdAtMs (orEmpty (mergeFetched [''2024-01-01''] ?srv ?prev) ''2024-01-01''))
      \<and> sorted (map createdAtMs (orEmpty (addItem True None ''2024-01-02'' ''D'' '''' 1500 ''q7'' ?prev)
           ''2024-01-01''))"
    by blast
  then show ?thesis
    by (simp add: B notPending_def)
qed

subsection \<open>Promotion\<close>

text \<open>
  C6. Promotion after a successful remote create (in \<open>addItem\<close> and in the upload sweep)
  leaves every other day as it was and keeps the length of the day's list; at every
  position the title, the link and \<open>createdAtMs\<close> are unchanged; an entry with the local
  identity gets the remote identity and \<open>pending = false\<close>, any other entry is unchanged.
  With identities distinct in the bucket, the list changes at the position of the promoted
  item only.
\<close>

theorem promotion_frame:
  "(d \<noteq> dateKey \<longrightarrow> map_of (promote dateKey localId docId prev) d = map_of prev d)
   \<and> length (orEmpty (promote dateKey localId docId prev) dateKey) = length (orEmpty prev dateKey)
   \<and> (n < length (orEmpty prev dateKey) \<longrightarrow>
        title (orEmpty (promote dateKey localId docId prev) dateKey ! n) = title (orEmpty prev dateKey ! n)
        \<and> link (orEmpty (promote dateKey localId docId prev) dateKey ! n) = link (orEmpty prev dateKey ! n)
        \<and> createdAtMs (orEmpty (promote dateKey localId docId prev) dateKey ! n)
            = createdAtMs (orEmpty prev dateKey ! n)
        \<and> (if item_id (orEmpty prev dateKey ! n) = localId
            then item_id (orEmpty (promote dateKey localId docId prev) dateKey ! n) = docId
                 \<and> \<not> pending (orEmpty (promote dateKey localId docId prev) dateKey ! n)
            else orEmpty (promote dateKey localId docId prev) dateKey ! n = orEmpty prev dateKey ! n))
   \<and> (distinct (map item_id (orEmpty prev dateKey)) \<and> p < length (orEmpty prev dateKey)
        \<and> item_id (orEmpty prev dateKey ! p) = localId \<longrightarrow>
        orEmpty (promote dateKey localId docId prev) dateKey
          = (orEmpty prev dateKey)[p := (orEmpty prev dateKey ! p)\<lparr>item_id := docId, pending := False\<rparr>])
   \<and> addItem True (Some docId) dateKey ttl lnk now rnd prev
       = promote dateKey (''local-'' @ rnd) docId
           (insertLocal dateKey
              \<lparr>item_id = ''local-'' @ rnd, title = ttl, link = lnk, createdAtMs = now, pending = True\<rparr> prev)
   \<and> (addDoc (dateKey, it) = Some docId \<longrightarrow>
        uploadLoop addDoc [(dateKey, it)] prev = promote dateKey (item_id it) docId prev)"
proof (intro conjI impI)
  let ?old = "orEmpty prev dateKey"
  let ?new = "orEmpty (promote dateKey localId docId prev) dateKey"
  let ?f = "\<lambda>it. if item_id it = localId then it\<lparr>item_id := docId, pending := False\<rparr> else it"
  have new: "?new = map ?f ?old"
    by (simp add: promote_bucket)
  show "length ?new = length ?old"
    by (simp add: new)
  show "map_of (promote dateKey localId docId prev) d = map_of prev d" if "d \<noteq> dateKey"
    using that by (simp add: promote_def update_conv')
  show "addItem True (Some docId) dateKey ttl lnk now rnd prev
       = promote dateKey (''local-'' @ rnd) docId
           (insertLocal dateKey
              \<lparr>item_id = ''local-'' @ rnd, title = ttl, link = lnk, createdAtMs = now, pending = True\<rparr> prev)"
    by (simp add: addItem_def Let_def)
  show "uploadLoop addDoc [(dateKey, it)] prev = promote dateKey (item_id it) docId prev"
    if "addDoc (dateKey, it) = Some docId"
    using that by simp
  {
    assume n: "n < length ?old"
    show "title (?new ! n) = title (?old ! n)" using n by (simp add: new)
    show "link (?new ! n) = link (?old ! n)" using n by (simp add: new)
    show "createdAtMs (?new ! n) = createdAtMs (?old ! n)" using n by (simp add: new)
    show "if item_id (?old ! n) = localId
          then item_id (?new ! n) = docId \<and> \<not> pending (?new ! n)
          else ?new ! n = ?old ! n"
      using n by (simp add: new)
  }
  {
    assume a: "distinct (map item_id ?old) \<and> p < length ?old \<and> item_id (?old ! p) = localId"
    have "map ?f ?old = ?old[p := (?old ! p)\<lparr>item_id := docId, pending := False\<rparr>]"
    proof (rule nth_equalityI)
      show "length (map ?f ?old) = length (?old[p := (?old ! p)\<lparr>item_id := docId, pending := False\<rparr>])"
        by simp
    next
      fix j
      assume "j < length (map ?f ?old)"
      then have j: "j < length ?old" by simp
      show "map ?f ?old ! j = ?old[p := (?old ! p)\<lparr>item_id := docId, pending := False\<rparr>] ! j"
      proof (cases "j = p")
        case True
        with a show ?thesis by simp
      next
        case False
        with a j have "item_id (?old ! j) \<noteq> localId"
          using nth_eq_iff_index_eq[of "map item_id ?old" j p] by auto
        with False j show ?thesis by simp
      qed
    qed
    then show "?new = ?old[p := (?old ! p)\<lparr>item_id := docId, pending := False\<rparr>]"
      by (simp only: new)
  }
qed

theorem promotion_frame_witness:
  "orEmpty (promote ''2024-01-01'' ''local-k3x'' ''r9''
      [(''2024-01-01'', [\<lparr>item_id = ''r2'', title = ''B'', link = '''', createdAtMs = 500, pending = False\<rparr>,
                         \<lparr>item_id = ''local-k3x'', title = ''C'', link = ''u'', createdAtMs = 700, pending = True\<rparr>])])
     ''2024-01-01''
   = [\<lparr>item_id = ''r2'', title = ''B'', link = '''', createdAtMs = 500, pending = False\<rparr>,
      \<lparr>item_id = ''r9'', title = ''C'', link = ''u'', createdAtMs = 700, pending = False\<rparr>]"
proof -
  let ?a = "\<lparr>item_id = ''r2'', title = ''B'', link = '''', createdAtMs = 500, pending = False\<rparr>"
  let ?b = "\<lparr>item_id = ''local-k3x'', title = ''C'', link = ''u'', createdAtMs = 700, pending = True\<rparr>"
  let ?prev = "[(''2024-01-01'', [?a, ?b])]"
  have L: "orEmpty ?prev ''2024-01-01'' = [?a, ?b]"
    by (simp add: orEmpty_def)
  have h: "distinct (map item_id (orEmpty ?prev ''2024-01-01'')) \<and> 1 < length (orEmpty ?prev ''2024-01-01'')
      \<and> item_id (orEmpty ?prev ''2024-01-01'' ! 1) = ''local-k3x''"
    by (simp add: L)
  from promotion_frame [where prev = ?prev and dateKey = "''2024-01-01''" and localId = "''local-k3x''"
      and docId = "''r9''" and p = 1] h
  have "orEmpty (promote ''2024-01-01'' ''local-k3x'' ''r9'' ?prev) ''2024-01-01''
      = (orEmpty ?prev ''2024-01-01'')[1 := (orEmpty ?prev ''2024-01-01'' ! 1)\<lparr>item_id := ''r9'', pending := False\<rparr>]"
    by blast
  then show ?thesis
    by (simp add: L)
qed

subsection \<open>Removing an item\<close>

text \<open>
  With a Firestore handle and a rejected \<open>deleteDoc\<close>, \<open>deleteItem\<close> leaves the item
  \<open>r1\<close> in its bucket.
\<close>

theorem deleteItem_remote_failure_counterexample:
  "orEmpty (deleteItem True False ''2024-01-01'' ''r1''
      [(''2024-01-01'', [\<lparr>item_id = ''r1'', title = ''A'', link = '''', createdAtMs = 1000, pending = False\<rparr>])])
     ''2024-01-01''
   = [\<lparr>item_id = ''r1'', title = ''A'', link = '''', createdAtMs = 1000, pending = False\<rparr>]"
  by (simp add: deleteItem_def orEmpty_def)

text \<open>
  C1, as the code has it. \<open>removeItem\<close> always removes the entries with the identity from
  the day's bucket, and the removal is what is saved. \<open>deleteItem\<close> does so for a
  non-empty identity when the identity has the local prefix, when there is no Firestore
  handle, or when the awaited \<open>deleteDoc\<close> resolves; when \<open>deleteDoc\<close> rejects, the state
  is left as it was.
\<close>

theorem local_removal:
  "orEmpty (removeItem dateKey i prev) dateKey = filter (\<lambda>it. item_id it \<noteq> i) (orEmpty prev dateKey)
   \<and> map_of (toSave_all (removeItem dateKey i prev3)) dateKey
       = Some (JArr (map storedItem (filter (\<lambda>it. item_id it \<noteq> i) (orEmpty prev3 dateKey))))
   \<and> (i \<noteq> [] \<and> (prefix ''local-'' i \<or> \<not> db \<or> deleteDocOk) \<longrightarrow>
        orEmpty (deleteItem db deleteDocOk dateKey i prev2) dateKey
          = filter (\<lambda>it. item_id it \<noteq> i) (orEmpty prev2 dateKey)
        \<and> map_of (toSave (deleteItem db deleteDocOk dateKey i prev2)) dateKey
          = (if filter (\<lambda>it. item_id it \<noteq> i) (orEmpty prev2 dateKey) = [] then None
             else Some (JArr (map storedItem (filter (\<lambda>it. item_id it \<noteq> i) (orEmpty prev2 dateKey))))))
   \<and> (\<not> prefix ''local-'' i \<and> db \<and> \<not> deleteDocOk \<longrightarrow>
        deleteItem db deleteDocOk dateKey i prev2 = prev2)"
proof (intro conjI impI)
  show "orEmpty (removeItem dateKey i prev) dateKey
          = filter (\<lambda>it. item_id it \<noteq> i) (orEmpty prev dateKey)"
    by (simp add: removeItem_bucket)
  show "map_of (toSave_all (removeItem dateKey i prev3)) dateKey
          = Some (JArr (map storedItem (filter (\<lambda>it. item_id it \<noteq> i) (orEmpty prev3 dateKey))))"
    using removeItem_keys[of dateKey i prev3] by (simp add: toSave_all_lookup removeItem_bucket)
next
  assume a: "i \<noteq> [] \<and> (prefix ''local-'' i \<or> \<not> db \<or> deleteDocOk)"
  then have d: "deleteItem db deleteDocOk dateKey i prev2 = deleteFromMap dateKey i prev2"
    by (auto simp: deleteItem_def)
  show "orEmpty (deleteItem db deleteDocOk dateKey i prev2) dateKey
          = filter (\<lambda>it. item_id it \<noteq> i) (orEmpty prev2 dateKey)"
    by (simp add: d deleteFromMap_bucket)
  show "map_of (toSave (deleteItem db deleteDocOk dateKey i prev2)) dateKey
          = (if filter (\<lambda>it. item_id it \<noteq> i) (orEmpty prev2 dateKey) = [] then None
             else Some (JArr (map storedItem (filter (\<lambda>it. item_id it \<noteq> i) (orEmpty prev2 dateKey)))))"
    by (simp add: d toSave_lookup deleteFromMap_bucket)
next
  assume "\<not> prefix ''local-'' i \<and> db \<and> \<not> deleteDocOk"
  then show "deleteItem db deleteDocOk dateKey i prev2 = prev2"
    by (simp add: deleteItem_def)
qed

theorem local_removal_witness:
  "orEmpty (deleteItem True True ''2024-01-01'' ''r1''
      [(''2024-01-01'', [\<lparr>item_id = ''r1'', title = ''A'', link = '''', createdAtMs = 1000, pending = False\<rparr>,
                         \<lparr>item_id = ''r2'', title = ''B'', link = '''', createdAtMs = 2000, pending = False\<rparr>])])
     ''2024-01-01''
   = [\<lparr>item_id = ''r2'', title = ''B'', link = '''', createdAtMs = 2000, pending = False\<rparr>]
   \<and> deleteItem True False ''2024-01-01'' ''r1''
      [(''2024-01-01'', [\<lparr>item_id = ''r1'', title = ''A'', link = '''', createdAtMs = 1000, pending = False\<rparr>,
                         \<lparr>item_id = ''r2'', title = ''B'', link = '''', createdAtMs = 2000, pending = False\<rparr>])]
   = [(''2024-01-01'', [\<lparr>item_id = ''r1'', title = ''A'', link = '''', createdAtMs = 1000, pending = False\<rparr>,
                         \<lparr>item_id = ''r2'', title = ''B'', link = '''', createdAtMs = 2000, pending = False\<rparr>])]"
proof -
  let ?m = "[(''2024-01-01'', [\<lparr>item_id = ''r1'', title = ''A'', link = '''', createdAtMs = 1000, pending = False\<rparr>,
                         \<lparr>item_id = ''r2'', title = ''B'', link = '''', createdAtMs = 2000, pending = False\<rparr>])]"
  have h1: "''r1'' \<noteq> [] \<and> (prefix ''local-'' ''r1'' \<or> \<not> True \<or> True)" by simp
  have h2: "\<not> prefix ''local-'' ''r1'' \<and> True \<and> \<not> False" by simp
  have b: "orEmpty ?m ''2024-01-01'' = snd (hd ?m)" by (simp add: orEmpty_def)
  from local_removal [of "''2024-01-01''" "''r1''" "[]" "[]" True True ?m] h1
  have 1: "orEmpty (deleteItem True True ''2024-01-01'' ''r1'' ?m) ''2024-01-01''
            = filter (\<lambda>it. item_id it \<noteq> ''r1'') (orEmpty ?m ''2024-01-01'')"
    by blast
  from local_removal [of "''2024-01-01''" "''r1''" "[]" "[]" True False ?m] h2
  have 2: "deleteItem True False ''2024-01-01'' ''r1'' ?m = ?m"
    by blast
  from 1 2 show ?thesis by (simp add: b)
qed

text \<open>
  C10. Removing an identity that no entry of the day's bucket has leaves the list of that
  day (and of every other day) as it was, in \<open>removeItem\<close> and in \<open>deleteItem\<close>, whatever
  the remote outcome; both functions are total.
\<close>

theorem unknown_identity_noop:
  "(i \<notin> set (map item_id (orEmpty prev dateKey)) \<longrightarrow>
      orEmpty (removeItem dateKey i prev) d = orEmpty prev d)
   \<and> (i \<notin> set (map item_id (orEmpty prev2 dateKey)) \<longrightarrow>
      orEmpty (deleteItem db deleteDocOk dateKey i prev2) d = orEmpty prev2 d)"
  by (auto simp: removeItem_bucket deleteItem_def deleteFromMap_bucket filter_absent_id)

theorem unknown_identity_noop_witness:
  "orEmpty (removeItem ''2024-01-01'' ''zz''
      [(''2024-01-01'', [\<lparr>item_id = ''r2'', title = ''B'', link = '''', createdAtMs = 500, pending = False\<rparr>,
                         \<lparr>item_id = ''local-k3x'', title = ''C'', link = ''u'', createdAtMs = 700, pending = True\<rparr>])])
     ''2024-01-01''
   = [\<lparr>item_id = ''r2'', title = ''B'', link = '''', createdAtMs = 500, pending = False\<rparr>,
      \<lparr>item_id = ''local-k3x'', title = ''C'', link = ''u'', createdAtMs = 700, pending = True\<rparr>]
   \<and> orEmpty (deleteItem True True ''2024-01-01'' ''zz''
      [(''2024-01-01'', [\<lparr>item_id = ''r2'', title = ''B'', link = '''', createdAtMs = 500, pending = False\<rparr>,
                         \<lparr>item_id = ''local-k3x'', title = ''C'', link = ''u'', createdAtMs = 700, pending = True\<rparr>])])
     ''2024-01-01''
   = [\<lparr>item_id = ''r2'', title = ''B'', link = '''', createdAtMs = 500, pending = False\<rparr>,
      \<lparr>item_id = ''local-k3x'', title = ''C'', link = ''u'', createdAtMs = 700, pending = True\<rparr>]"
proof -
  let ?a = "\<lparr>item_id = ''r2'', title = ''B'', link = '''', createdAtMs = 500, pending = False\<rparr>"
  let ?b = "\<lparr>item_id = ''local-k3x'', title = ''C'', link = ''u'', createdAtMs = 700, pending = True\<rparr>"
  let ?prev = "[(''2024-01-01'', [?a, ?b])]"
  have L: "orEmpty ?prev ''2024-01-01'' = [?a, ?b]"
    by (simp add: orEmpty_def)
  have h: "''zz'' \<notin> set (map item_id (orEmpty ?prev ''2024-01-01''))"
    by (simp add: L)
  from unknown_identity_noop [where prev = ?prev and ?prev2.0 = ?prev and dateKey = "''2024-01-01''"
      and i = "''zz''" and d = "''2024-01-01''" and db = True and deleteDocOk = True] h
  show ?thesis
    by (simp add: L)
qed

subsection \<open>Reading the local store\<close>

text \<open>
  The helper alone: \<open>readLocalStorageItems\<close> never raises. It returns the empty mapping
  when the key is absent, when the stored string is empty, when reading the store throws
  and when the stored text does not parse; when the text parses, it returns the parsed
  value as it is, whatever its shape.
\<close>

lemma readLocalStorageItems_total:
  "(\<exists>v. readLocalStorageItems parse getItem = Inr v)
   \<and> (getItem = Inr None \<or> getItem = Inr (Some []) \<or> getItem = Inl e \<longrightarrow>
        readLocalStorageItems parse getItem = Inr (JObj []))
   \<and> (getItem = Inr (Some s) \<and> parse s = Inl e' \<longrightarrow>
        readLocalStorageItems parse getItem = Inr (JObj []))
   \<and> (getItem = Inr (Some s) \<and> s \<noteq> [] \<and> parse s = Inr v' \<longrightarrow>
        readLocalStorageItems parse getItem = Inr v')"
  by (auto simp: readLocalStorageItems_def split: sum.splits option.splits)

text \<open>
  The load as a whole on the stores the claim names: with the key absent, the stored string
  empty, a throwing store or a text that does not parse, the initializer returns the empty
  mapping.
\<close>

lemma initialItemsMap_default:
  assumes "getItem = Inr None \<or> getItem = Inr (Some []) \<or> getItem = Inl e
           \<or> (\<exists>s e'. getItem = Inr (Some s) \<and> parse s = Inl e')"
  shows "initialItemsMap parse getItem rnd now = Inr []"
proof -
  have "readLocalStorageItems parse getItem = Inr (JObj [])"
    using assms by (auto simp: readLocalStorageItems_def split: sum.splits option.splits)
  then show ?thesis
    by (simp add: initialItemsMap_def)
qed

text \<open>A store of the shape the application writes loads to its items, local ones pending.\<close>

lemma initialItemsMap_well_shaped:
  assumes "s \<noteq> []"
    and "parse s =
           Inr (JObj [(''2024-01-01'',
                       JArr [JObj [(''id'', JStr ''local-k3x''), (''title'', JStr ''C''),
                                   (''link'', JStr ''''), (''createdAtMs'', JNum 700)],
                             JObj [(''id'', JStr ''r1''), (''title'', JStr ''A''),
                                   (''link'', JStr ''u''), (''createdAtMs'', JNum 1000)]])])"
  shows "initialItemsMap parse (Inr (Some s)) rnd now =
           Inr [(''2024-01-01'',
                 [\<lparr>ld_id = JsJson (JStr ''local-k3x''), ld_title = JsJson (JStr ''C''),
                   ld_link = JsJson (JStr ''''), ld_createdAtMs = JsJson (JNum 700),
                   ld_pending = True\<rparr>,
                  \<lparr>ld_id = JsJson (JStr ''r1''), ld_title = JsJson (JStr ''A''),
                   ld_link = JsJson (JStr ''u''), ld_createdAtMs = JsJson (JNum 1000),
                   ld_pending = False\<rparr>])]"
proof -
  have "readLocalStorageItems parse (Inr (Some s)) = parse s"
    using assms by (simp add: readLocalStorageItems_def)
  then show ?thesis
    using assms(2) by (simp add: initialItemsMap_def loadItem_def orElse_def)
qed

text \<open>
  C8, evaluated at the stored text \<open>null\<close>. The text parses, so the \<open>catch\<close> of
  \<open>readLocalStorageItems\<close> is not entered and the helper returns \<open>null\<close>, which is not a
  mapping; the initializer of lines 248-261 then calls \<open>Object.keys(null)\<close>, which throws:
  the load raises a \<open>TypeError\<close>. A stored array of \<open>null\<close> and a stored number as a day's
  value, once parsed, make it throw as well.
\<close>

theorem initialItemsMap_null_raises:
  "readLocalStorageItems parseLiteral (Inr (Some ''null'')) = Inr JNull
   \<and> \<not> isMapping JNull
   \<and> initialItemsMap parseLiteral (Inr (Some ''null'')) rnd now = Inl TypeError
   \<and> loadDays rnd now [(''2024-01-01'', JArr [JNull])] [] = Inl TypeError
   \<and> loadDays rnd now [(''2024-01-01'', JNum 5)] [] = Inl TypeError"
  by (simp add: readLocalStorageItems_def parseLiteral_def initialItemsMap_def loadItem_def)

subsection \<open>The upload sweep\<close>

text \<open>
  C7, evaluated. The handle is available before and after the render (no availability
  transition). The bucket of 2024-01-01 holds a pending item whose upload was rejected (a
  sweep with every \<open>addDoc\<close> rejected leaves the state as it is). The user adds an item
  on 2024-01-02: the mapping changes, the effect runs again, and the sweep calls \<open>addDoc\<close>
  for the old pending item once more, and for the new item, which \<open>addItem\<close> uploads
  itself.
\<close>

theorem sweep_repeats_without_transition:
  "uploadPending True addDocRejects
      [(''2024-01-01'', [\<lparr>item_id = ''local-k3x'', title = ''C'', link = '''', createdAtMs = 700, pending = True\<rparr>])]
     = [(''2024-01-01'', [\<lparr>item_id = ''local-k3x'', title = ''C'', link = '''', createdAtMs = 700, pending = True\<rparr>])]
   \<and> \<not> availabilityTransition
        \<lparr>r_db = True, r_itemsMap =
           [(''2024-01-01'', [\<lparr>item_id = ''local-k3x'', title = ''C'', link = '''', createdAtMs = 700, pending = True\<rparr>])]\<rparr>
        \<lparr>r_db = True, r_itemsMap =
           insertLocal ''2024-01-02''
             \<lparr>item_id = ''local-q7'', title = ''D'', link = '''', createdAtMs = 1500, pending = True\<rparr>
             [(''2024-01-01'', [\<lparr>item_id = ''local-k3x'', title = ''C'', link = '''', createdAtMs = 700, pending = True\<rparr>])]\<rparr>
   \<and> sweepCalls
        \<lparr>r_db = True, r_itemsMap =
           [(''2024-01-01'', [\<lparr>item_id = ''local-k3x'', title = ''C'', link = '''', createdAtMs = 700, pending = True\<rparr>])]\<rparr>
        \<lparr>r_db = True, r_itemsMap =
           insertLocal ''2024-01-02''
             \<lparr>item_id = ''local-q7'', title = ''D'', link = '''', createdAtMs = 1500, pending = True\<rparr>
             [(''2024-01-01'', [\<lparr>item_id = ''local-k3x'', title = ''C'', link = '''', createdAtMs = 700, pending = True\<rparr>])]\<rparr>
     = [(''2024-01-01'', \<lparr>item_id = ''local-k3x'', title = ''C'', link = '''', createdAtMs = 700, pending = True\<rparr>),
        (''2024-01-02'', \<lparr>item_id = ''local-q7'', title = ''D'', link = '''', createdAtMs = 1500, pending = True\<rparr>)]"
proof -
  let ?p = "\<lparr>item_id = ''local-k3x'', title = ''C'', link = '''', createdAtMs = 700, pending = True\<rparr>"
  let ?n = "\<lparr>item_id = ''local-q7'', title = ''D'', link = '''', createdAtMs = 1500, pending = True\<rparr>"
  let ?m0 = "[(''2024-01-01'', [?p])]"
  have ins: "insertLocal ''2024-01-02'' ?n ?m0 = [(''2024-01-01'', [?p]), (''2024-01-02'', [?n])]"
    by (simp add: insertLocal_def orZero_def)
  have pe0: "pendingEntries ?m0 = [(''2024-01-01'', ?p)]"
    by (simp add: pendingEntries_def orEmpty_def isLocalId_def)
  have pe1: "pendingEntries [(''2024-01-01'', [?p]), (''2024-01-02'', [?n])]
               = [(''2024-01-01'', ?p), (''2024-01-02'', ?n)]"
    by (simp add: pendingEntries_def orEmpty_def isLocalId_def)
  have 1: "uploadPending True addDocRejects ?m0 = ?m0"
    by (simp add: uploadPending_def pe0 addDocRejects_def)
  have 2: "\<not> availabilityTransition \<lparr>r_db = True, r_itemsMap = ?m0\<rparr>
             \<lparr>r_db = True, r_itemsMap = insertLocal ''2024-01-02'' ?n ?m0\<rparr>"
    by (simp add: availabilityTransition_def)
  have 3: "sweepCalls \<lparr>r_db = True, r_itemsMap = ?m0\<rparr>
             \<lparr>r_db = True, r_itemsMap = insertLocal ''2024-01-02'' ?n ?m0\<rparr>
           = [(''2024-01-01'', ?p), (''2024-01-02'', ?n)]"
    by (simp add: sweepCalls_def uploadEffectRuns_def uploadAttempts_def ins pe1)
  from 1 2 3 show ?thesis by simp
qed

subsection \<open>The visible days\<close>

text \<open>
  Decimal strings: \<open>String(n)\<close> has no leading zero, has a minus sign only in front, and
  determines \<open>n\<close>; so does \<open>pad\<close>, and a key determines its year, month and date.
\<close>

lemma digitChar_inj: "d < 10 \<Longrightarrow> e < 10 \<Longrightarrow> digitChar d = digitChar e \<Longrightarrow> d = e"
  by (simp add: digitChar_def split: if_splits, presburger)

lemma digitChar_not_dash: "digitChar d \<noteq> CHR ''-''"
  by (simp add: digitChar_def)

lemma digitChar_zero: "d < 10 \<Longrightarrow> digitChar d = CHR ''0'' \<Longrightarrow> d = 0"
  by (simp add: digitChar_def split: if_splits)

lemma natString_nonempty: "natString n \<noteq> []" and natString_nonempty': "[] \<noteq> natString n"
  by (subst natString.simps, simp)+

lemma natString_no_dash: "CHR ''-'' \<notin> set (natString n)"
proof (induction n rule: natString.induct)
  case (1 n)
  then show ?case
    by (subst natString.simps) (auto simp: digitChar_not_dash digitChar_not_dash[THEN not_sym])
qed

lemma natString_inj: "natString a = natString b \<Longrightarrow> a = b"
proof (induction a arbitrary: b rule: natString.induct)
  case (1 a)
  show ?case
  proof (cases "a < 10")
    case True
    note a = this
    show ?thesis
    proof (cases "b < 10")
      case True
      with a "1.prems" show ?thesis
        by (simp add: natString.simps[of a] natString.simps[of b] digitChar_inj)
    next
      case False
      with a "1.prems" show ?thesis
        by (simp add: natString.simps[of a] natString.simps[of b] natString_nonempty natString_nonempty')
    qed
  next
    case False
    note a = this
    show ?thesis
    proof (cases "b < 10")
      case True
      with a "1.prems" show ?thesis
        by (simp add: natString.simps[of a] natString.simps[of b] natString_nonempty natString_nonempty')
    next
      case False
      with a "1.prems" have eq: "natString (a div 10) = natString (b div 10)"
        and dg: "digitChar (a mod 10) = digitChar (b mod 10)"
        by (simp_all add: natString.simps[of a] natString.simps[of b])
      from "1.IH"[OF a eq] have "a div 10 = b div 10" .
      moreover from dg have "a mod 10 = b mod 10"
        by (intro digitChar_inj) simp_all
      ultimately show ?thesis
        by (metis div_mult_mod_eq)
    qed
  qed
qed

lemma natString_hd_zero: "hd (natString n) = CHR ''0'' \<Longrightarrow> n = 0"
proof (induction n rule: natString.induct)
  case (1 n)
  show ?case
  proof (cases "n < 10")
    case True
    with "1.prems" show ?thesis
      by (simp add: natString.simps[of n] digitChar_zero)
  next
    case False
    with "1.prems" have "hd (natString (n div 10)) = CHR ''0''"
      by (simp add: natString.simps[of n] natString_nonempty)
    with "1.IH"[OF False] have "n div 10 = 0" by simp
    with False show ?thesis by simp
  qed
qed

lemma String_of_nonempty: "String_of n \<noteq> []"
  by (simp add: String_of_def natString_nonempty)

lemma String_of_inj: "String_of a = String_of b \<Longrightarrow> a = b"
proof -
  assume eq: "String_of a = String_of b"
  have nd: "hd (natString k) \<noteq> CHR ''-''" for k
    using natString_no_dash[of k] natString_nonempty[of k] by (cases "natString k") auto
  show ?thesis
  proof (cases "a < 0")
    case True
    note a = this
    show ?thesis
    proof (cases "b < 0")
      case True
      with a eq have "natString (nat (- a)) = natString (nat (- b))"
        by (simp add: String_of_def)
      then have "nat (- a) = nat (- b)" by (rule natString_inj)
      with a True show ?thesis by simp
    next
      case False
      with a eq have "CHR ''-'' # natString (nat (- a)) = natString (nat b)"
        by (simp add: String_of_def)
      then have "hd (natString (nat b)) = CHR ''-''" by (metis list.sel(1))
      with nd show ?thesis by simp
    qed
  next
    case False
    note a = this
    show ?thesis
    proof (cases "b < 0")
      case True
      with a eq have "natString (nat a) = CHR ''-'' # natString (nat (- b))"
        by (simp add: String_of_def)
      then have "hd (natString (nat a)) = CHR ''-''" by simp
      with nd show ?thesis by simp
    next
      case False
      with a eq have "natString (nat a) = natString (nat b)"
        by (simp add: String_of_def)
      then have "nat a = nat b" by (rule natString_inj)
      with a False show ?thesis by simp
    qed
  qed
qed

lemma no_dash_split:
  "CHR ''-'' \<notin> set xs \<Longrightarrow> CHR ''-'' \<notin> set ys \<Longrightarrow> xs @ CHR ''-'' # r = ys @ CHR ''-'' # r'
     \<Longrightarrow> xs = ys \<and> r = r'"
proof (induction xs arbitrary: ys)
  case Nil
  then show ?case by (cases ys) auto
next
  case (Cons x xs)
  then show ?case by (cases ys) auto
qed

lemma String_of_split:
  assumes "String_of a @ CHR ''-'' # r = String_of b @ CHR ''-'' # r'"
  shows "a = b \<and> r = r'"
proof -
  have nd: "hd (natString k) \<noteq> CHR ''-''" for k
    using natString_no_dash[of k] natString_nonempty[of k] by (cases "natString k") auto
  have ne: "hd (natString k @ u) = hd (natString k)" for k u
    using natString_nonempty[of k] by simp
  show ?thesis
  proof (cases "a < 0")
    case True
    note a = this
    show ?thesis
    proof (cases "b < 0")
      case True
      with a assms have "natString (nat (- a)) @ CHR ''-'' # r = natString (nat (- b)) @ CHR ''-'' # r'"
        by (simp add: String_of_def)
      then have "natString (nat (- a)) = natString (nat (- b)) \<and> r = r'"
        by (intro no_dash_split natString_no_dash)
      then have "nat (- a) = nat (- b) \<and> r = r'" by (auto dest: natString_inj)
      with a True show ?thesis by auto
    next
      case False
      with a assms have "CHR ''-'' # natString (nat (- a)) @ CHR ''-'' # r = natString (nat b) @ CHR ''-'' # r'"
        by (simp add: String_of_def)
      then have "hd (natString (nat b) @ CHR ''-'' # r') = CHR ''-''" by (metis list.sel(1))
      with nd ne show ?thesis by simp
    qed
  next
    case False
    note a = this
    show ?thesis
    proof (cases "b < 0")
      case True
      with a assms have "natString (nat a) @ CHR ''-'' # r = CHR ''-'' # natString (nat (- b)) @ CHR ''-'' # r'"
        by (simp add: String_of_def)
      then have "hd (natString (nat a) @ CHR ''-'' # r) = CHR ''-''" by simp
      with nd ne show ?thesis by simp
    next
      case False
      with a assms have "natString (nat a) @ CHR ''-'' # r = natString (nat b) @ CHR ''-'' # r'"
        by (simp add: String_of_def)
      then have "natString (nat a) = natString (nat b) \<and> r = r'"
        by (intro no_dash_split natString_no_dash)
      then have "nat a = nat b \<and> r = r'" by (auto dest: natString_inj)
      with a False show ?thesis by auto
    qed
  qed
qed

lemma String_of_hd_zero: "hd (String_of b) = CHR ''0'' \<Longrightarrow> b = 0"
proof (cases "b < 0")
  case True
  assume "hd (String_of b) = CHR ''0''"
  with True show ?thesis by (simp add: String_of_def)
next
  case False
  assume "hd (String_of b) = CHR ''0''"
  with False have "nat b = 0" using natString_hd_zero[of "nat b"] by (simp add: String_of_def)
  with False show ?thesis by simp
qed

lemma String_of_zero: "String_of 0 = ''0''"
  by (simp add: String_of_def natString.simps digitChar_def)

lemma pad_inj: "pad a = pad b \<Longrightarrow> a = b"
proof -
  assume eq: "pad a = pad b"
  have short: "x = y" if "length (String_of x) < 2" "\<not> length (String_of y) < 2" "pad x = pad y" for x y
  proof -
    from that(1) String_of_nonempty[of x] have lx: "length (String_of x) = 1"
      by (cases "String_of x") auto
    with that have "CHR ''0'' # String_of x = String_of y"
      by (simp add: pad_def padStart0_def)
    then have hd: "hd (String_of y) = CHR ''0''" by (metis list.sel(1))
    then have "y = 0" by (rule String_of_hd_zero)
    with that(2) show ?thesis by (simp add: String_of_zero)
  qed
  show ?thesis
  proof (cases "length (String_of a) < 2")
    case True
    note a = this
    show ?thesis
    proof (cases "length (String_of b) < 2")
      case True
      from a String_of_nonempty[of a] have "length (String_of a) = 1"
        by (cases "String_of a") auto
      moreover from True String_of_nonempty[of b] have "length (String_of b) = 1"
        by (cases "String_of b") auto
      ultimately have "String_of a = String_of b"
        using eq by (simp add: pad_def padStart0_def)
      then show ?thesis by (rule String_of_inj)
    next
      case False
      show ?thesis by (rule short[OF a False eq])
    qed
  next
    case False
    note a = this
    show ?thesis
    proof (cases "length (String_of b) < 2")
      case True
      have "b = a" by (rule short[OF True a eq[symmetric]])
      then show ?thesis by simp
    next
      case False
      with a eq have "String_of a = String_of b"
        by (simp add: pad_def padStart0_def)
      then show ?thesis by (rule String_of_inj)
    qed
  qed
qed

lemma pad_length: "0 \<le> n \<Longrightarrow> n < 100 \<Longrightarrow> length (pad n) = 2"
proof -
  assume n: "0 \<le> n" "n < 100"
  have "length (natString (nat n)) = (if nat n < 10 then 1 else 2)"
    using n by (simp add: natString.simps[of "nat n"] natString.simps[of "nat n div 10"])
  with n show ?thesis
    by (simp add: pad_def padStart0_def String_of_def)
qed

text \<open>
  The calendar-date variant (lines 235-245), in a zone where the local midnight of every
  day lies in that day, and in a year outside 0..99: the window is the keys of the local
  day of \<open>now\<close> and of the days before it, one by one, newest first; the keys are
  distinct, and the first is the key of \<open>now\<close>. A zone with a constant offset is such a
  zone. The millisecond variant (lines 19-21, 600-602) steps through the days of UTC.
\<close>

lemma MonthFromDay_range: "0 \<le> MonthFromDay z \<and> MonthFromDay z \<le> 11"
  by (simp add: MonthFromDay_def monthOfDayWithinYear_def)

lemma MakeDay_components:
  "MakeDay (YearFromDay z) (MonthFromDay z) (DateFromDay z - i) = z - i"
proof -
  from MonthFromDay_range[of z]
  have "MonthFromDay z div 12 = 0" and "MonthFromDay z mod 12 = MonthFromDay z"
    by simp_all
  then show ?thesis
    by (simp add: MakeDay_def dayOfMonthStart_def DateFromDay_def DayWithinYear_def)
qed

lemma formatDateKey_local_day:
  "formatDateKey_local tz t = dateKeyOfDay (Day (LocalTime tz t))"
  by (simp add: formatDateKey_local_def dateKeyOfDay_def getFullYear_def getMonth_def getDate_def)

lemma dateKeyOfDay_inj: "dateKeyOfDay z = dateKeyOfDay z' \<Longrightarrow> z = z'"
proof -
  assume "dateKeyOfDay z = dateKeyOfDay z'"
  then have "String_of (YearFromDay z) @ CHR ''-'' # (pad (MonthFromDay z + 1) @ CHR ''-'' # pad (DateFromDay z))
           = String_of (YearFromDay z') @ CHR ''-'' # (pad (MonthFromDay z' + 1) @ CHR ''-'' # pad (DateFromDay z'))"
    by (simp add: dateKeyOfDay_def)
  then have y: "YearFromDay z = YearFromDay z'"
    and r: "pad (MonthFromDay z + 1) @ CHR ''-'' # pad (DateFromDay z)
           = pad (MonthFromDay z' + 1) @ CHR ''-'' # pad (DateFromDay z')"
    using String_of_split by blast+
  have "length (pad (MonthFromDay z + 1)) = length (pad (MonthFromDay z' + 1))"
    using MonthFromDay_range[of z] MonthFromDay_range[of z'] by (simp add: pad_length)
  with r have "pad (MonthFromDay z + 1) = pad (MonthFromDay z' + 1)"
    and "pad (DateFromDay z) = pad (DateFromDay z')"
    by simp_all
  then have m: "MonthFromDay z = MonthFromDay z'" and d: "DateFromDay z = DateFromDay z'"
    by (auto dest: pad_inj)
  have "z = MakeDay (YearFromDay z) (MonthFromDay z) (DateFromDay z - 0) - 0"
    by (simp only: MakeDay_components)
  also have "\<dots> = MakeDay (YearFromDay z') (MonthFromDay z') (DateFromDay z' - 0) - 0"
    by (simp only: y m d)
  also have "\<dots> = z'"
    by (simp only: MakeDay_components)
  finally show ?thesis .
qed

lemma fixedZone_midnight: "Day (LocalTime (fixedZone off) (UTC (fixedZone off) (z * MS_PER_DAY))) = z"
  by (simp add: Day_def LocalTime_def UTC_def fixedZone_def MS_PER_DAY_def)

lemma newDate_day:
  assumes "\<And>z. Day (LocalTime tz (UTC tz (z * MS_PER_DAY))) = z"
  shows "Day (LocalTime tz (newDate tz y m dt))
           = MakeDay (if 0 \<le> y \<and> y \<le> 99 then 1900 + y else y) m dt"
  by (simp only: newDate_def assms)

lemma visibleDatesN_local_days:
  assumes tz: "\<And>z. Day (LocalTime tz (UTC tz (z * MS_PER_DAY))) = z"
    and yr: "\<not> (0 \<le> getFullYear tz now \<and> getFullYear tz now \<le> 99)"
  shows "visibleDatesN_local n tz now
           = map (\<lambda>i. dateKeyOfDay (Day (LocalTime tz now) - int i)) [0..<n]"
proof -
  let ?b = "Day (LocalTime tz now)"
  have base: "Day (LocalTime tz (localMidnight tz now)) = ?b"
    using yr MakeDay_components[of ?b 0]
    by (auto simp: localMidnight_def newDate_day[OF tz] getFullYear_def getMonth_def getDate_def)
  have comps: "getFullYear tz (localMidnight tz now) = YearFromDay ?b"
    "getMonth tz (localMidnight tz now) = MonthFromDay ?b"
    "getDate tz (localMidnight tz now) = DateFromDay ?b"
    by (simp_all add: getFullYear_def getMonth_def getDate_def base)
  have yr': "\<not> (0 \<le> YearFromDay ?b \<and> YearFromDay ?b \<le> 99)"
    using yr by (simp add: getFullYear_def)
  have "formatDateKey_local tz
          (newDate tz (getFullYear tz (localMidnight tz now)) (getMonth tz (localMidnight tz now))
             (getDate tz (localMidnight tz now) - int i))
        = dateKeyOfDay (?b - int i)" for i
    using yr' by (auto simp: formatDateKey_local_day newDate_day[OF tz] comps MakeDay_components)
  then show ?thesis
    by (simp add: visibleDatesN_local_def visibleDatesFrom_def)
qed

lemma visibleDatesN_local_distinct:
  assumes tz: "\<And>z. Day (LocalTime tz (UTC tz (z * MS_PER_DAY))) = z"
    and yr: "\<not> (0 \<le> getFullYear tz now \<and> getFullYear tz now \<le> 99)"
  shows "length (visibleDatesN_local n tz now) = n \<and> distinct (visibleDatesN_local n tz now)
         \<and> (0 < n \<longrightarrow> hd (visibleDatesN_local n tz now) = formatDateKey_local tz now)"
proof -
  have inj: "inj_on (\<lambda>i. dateKeyOfDay (Day (LocalTime tz now) - int i)) (set [0..<n])"
    by (rule inj_onI) (auto dest: dateKeyOfDay_inj)
  have "hd (map (\<lambda>i. dateKeyOfDay (Day (LocalTime tz now) - int i)) [0..<n])
          = dateKeyOfDay (Day (LocalTime tz now))" if "0 < n"
    using that by (simp add: upt_conv_Cons)
  with inj show ?thesis
    by (simp add: visibleDatesN_local_days[OF tz yr] distinct_map formatDateKey_local_day)
qed

lemma visibleDates_local_fixedZone:
  assumes "\<not> (0 \<le> getFullYear (fixedZone off) now \<and> getFullYear (fixedZone off) now \<le> 99)"
  shows "length (visibleDates_local (fixedZone off) now) = 7
         \<and> distinct (visibleDates_local (fixedZone off) now)
         \<and> hd (visibleDates_local (fixedZone off) now) = formatDateKey_local (fixedZone off) now"
  using visibleDatesN_local_distinct[of "fixedZone off" now 7, OF fixedZone_midnight assms]
  by (simp add: visibleDates_local_def VISIBLE_DAYS_def)

lemma makeDateBefore_day:
  "Day (makeDateBefore t i) = Day t - i \<and> TimeWithinDay (makeDateBefore t i) = TimeWithinDay t"
proof -
  have "(t + (- i) * 86400000) div 86400000 = - i + t div 86400000"
    by (rule div_mult_self1) simp
  moreover have "(t + (- i) * 86400000) mod 86400000 = t mod 86400000"
    by (rule mod_mult_self1)
  ultimately show ?thesis
    by (simp add: Day_def TimeWithinDay_def makeDateBefore_def MS_PER_DAY_def)
qed

lemmas date_eval =
  Day_def TimeWithinDay_def MS_PER_DAY_def DayFromYear_def InLeapYear_def yearFromGroup_def
  yearFromCentury_def yearFromCycle_def YearFromDay_def DayWithinYear_def monthStart_def
  monthOfDayWithinYear_def MonthFromDay_def DateFromDay_def dayOfMonthStart_def isoDateTime_def
  MakeDay_def LocalTime_def UTC_def fixedZone_def getFullYear_def getMonth_def getDate_def
  String_of_def natString.simps digitChar_def padStart0_def pad_def isoYear_def

lemma visibleDatesN_iso_7:
  "visibleDatesN_iso 7 t =
     [formatDateKey_iso (makeDateBefore t 0), formatDateKey_iso (makeDateBefore t 1),
      formatDateKey_iso (makeDateBefore t 2), formatDateKey_iso (makeDateBefore t 3),
      formatDateKey_iso (makeDateBefore t 4), formatDateKey_iso (makeDateBefore t 5),
      formatDateKey_iso (makeDateBefore t 6)]"
  by (simp add: visibleDatesN_iso_def upt_rec)

lemma visibleDatesFrom_7:
  "visibleDatesFrom 7 tz b =
     [formatDateKey_local tz (newDate tz (getFullYear tz b) (getMonth tz b) (getDate tz b - 0)),
      formatDateKey_local tz (newDate tz (getFullYear tz b) (getMonth tz b) (getDate tz b - 1)),
      formatDateKey_local tz (newDate tz (getFullYear tz b) (getMonth tz b) (getDate tz b - 2)),
      formatDateKey_local tz (newDate tz (getFullYear tz b) (getMonth tz b) (getDate tz b - 3)),
      formatDateKey_local tz (newDate tz (getFullYear tz b) (getMonth tz b) (getDate tz b - 4)),
      formatDateKey_local tz (newDate tz (getFullYear tz b) (getMonth tz b) (getDate tz b - 5)),
      formatDateKey_local tz (newDate tz (getFullYear tz b) (getMonth tz b) (getDate tz b - 6))]"
  by (simp add: visibleDatesFrom_def upt_rec)

text \<open>
  C2, evaluated at the instant 2024-01-02T01:00:00Z in a zone three hours behind UTC, where
  the local calendar date is 2024-01-01. The variants that subtract milliseconds and format
  through \<open>toISOString\<close> start the window at the UTC date 2024-01-02; the variant that
  counts local calendar dates starts it at 2024-01-01.
\<close>

theorem visibleDates_iso_is_utc_date:
  "visibleDates_iso 1704157200000
     = [''2024-01-02'', ''2024-01-01'', ''2023-12-31'', ''2023-12-30'', ''2023-12-29'', ''2023-12-28'',
        ''2023-12-27'']
   \<and> formatDateKey_local (fixedZone (- 10800000)) 1704157200000 = ''2024-01-01''
   \<and> hd (visibleDates_iso 1704157200000) \<noteq> formatDateKey_local (fixedZone (- 10800000)) 1704157200000
   \<and> visibleDates_local (fixedZone (- 10800000)) 1704157200000
     = [''2024-01-01'', ''2023-12-31'', ''2023-12-30'', ''2023-12-29'', ''2023-12-28'', ''2023-12-27'',
        ''2023-12-26'']"
proof -
  let ?tz = "fixedZone (- 10800000)"
  have i0: "formatDateKey_iso (makeDateBefore 1704157200000 0) = ''2024-01-02''"
    and i1: "formatDateKey_iso (makeDateBefore 1704157200000 1) = ''2024-01-01''"
    and i2: "formatDateKey_iso (makeDateBefore 1704157200000 2) = ''2023-12-31''"
    and i3: "formatDateKey_iso (makeDateBefore 1704157200000 3) = ''2023-12-30''"
    and i4: "formatDateKey_iso (makeDateBefore 1704157200000 4) = ''2023-12-29''"
    and i5: "formatDateKey_iso (makeDateBefore 1704157200000 5) = ''2023-12-28''"
    and i6: "formatDateKey_iso (makeDateBefore 1704157200000 6) = ''2023-12-27''"
    by (simp_all add: formatDateKey_iso_def toISOString_def makeDateBefore_def date_eval)
  have iso: "visibleDates_iso 1704157200000
     = [''2024-01-02'', ''2024-01-01'', ''2023-12-31'', ''2023-12-30'', ''2023-12-29'', ''2023-12-28'',
        ''2023-12-27'']"
    by (simp only: visibleDates_iso_def VISIBLE_DAYS_def visibleDatesN_iso_7 i0 i1 i2 i3 i4 i5 i6)
  have today: "formatDateKey_local ?tz 1704157200000 = ''2024-01-01''"
    by (simp add: formatDateKey_local_def date_eval)
  have base: "localMidnight ?tz 1704157200000 = 1704078000000"
    by (simp add: localMidnight_def newDate_def date_eval)
  have y: "getFullYear ?tz 1704078000000 = 2024" and m: "getMonth ?tz 1704078000000 = 0"
    and d: "getDate ?tz 1704078000000 = 1"
    by (simp_all add: date_eval)
  have l0: "formatDateKey_local ?tz (newDate ?tz 2024 0 (1 - 0)) = ''2024-01-01''"
    and l1: "formatDateKey_local ?tz (newDate ?tz 2024 0 (1 - 1)) = ''2023-12-31''"
    and l2: "formatDateKey_local ?tz (newDate ?tz 2024 0 (1 - 2)) = ''2023-12-30''"
    and l3: "formatDateKey_local ?tz (newDate ?tz 2024 0 (1 - 3)) = ''2023-12-29''"
    and l4: "formatDateKey_local ?tz (newDate ?tz 2024 0 (1 - 4)) = ''2023-12-28''"
    and l5: "formatDateKey_local ?tz (newDate ?tz 2024 0 (1 - 5)) = ''2023-12-27''"
    and l6: "formatDateKey_local ?tz (newDate ?tz 2024 0 (1 - 6)) = ''2023-12-26''"
    by (simp_all add: formatDateKey_local_def newDate_def date_eval)
  have loc: "visibleDates_local ?tz 1704157200000
     = [''2024-01-01'', ''2023-12-31'', ''2023-12-30'', ''2023-12-29'', ''2023-12-28'', ''2023-12-27'',
        ''2023-12-26'']"
    by (simp only: visibleDates_local_def visibleDatesN_local_def VISIBLE_DAYS_def base
        visibleDatesFrom_7 y m d l0 l1 l2 l3 l4 l5 l6)
  from iso today loc show ?thesis by simp
qed

end
